theory Spec2Isabelle
  imports Complex_Main
begin

section \<open>Data model: floats, frames and series\<close>

text \<open>
  The values of \<^verbatim>\<open>database.py\<close> are IEEE doubles held in pandas frames. A finite
  value is the real number it denotes; the two special values the code can meet are kept
  apart: \<^verbatim>\<open>float('inf')\<close>, the start value of both running minima and the value of a
  computation that overflows, and NaN, which pandas produces for a label that one operand
  of an aligned subtraction lacks and which \<^verbatim>\<open>Series.max()\<close> returns when nothing else
  is left. The double arithmetic inside \<^verbatim>\<open>mean_squared_error\<close>, which rounds, overflows
  and underflows, is a parameter of the model: what is proved about the selection holds
  for every such arithmetic. The subtraction and the product of the matcher are taken
  exact.
\<close>

datatype pyfloat = Fin real | PosInf | NaN

text \<open>The comparisons \<^verbatim>\<open><=\<close> and \<^verbatim>\<open><\<close>: every comparison with NaN is false.\<close>

fun fle :: "pyfloat \<Rightarrow> pyfloat \<Rightarrow> bool" where
  "fle (Fin a) (Fin b) = (a \<le> b)"
| "fle (Fin a) PosInf = True"
| "fle PosInf PosInf = True"
| "fle _ _ = False"

fun flt :: "pyfloat \<Rightarrow> pyfloat \<Rightarrow> bool" where
  "flt (Fin a) (Fin b) = (a < b)"
| "flt (Fin a) PosInf = True"
| "flt _ _ = False"

text \<open>\<^verbatim>\<open>np.sqrt(2) * v\<close>: the product of a positive finite factor with a float.\<close>

fun fscale :: "real \<Rightarrow> pyfloat \<Rightarrow> pyfloat" where
  "fscale c (Fin a) = Fin (c * a)"
| "fscale c PosInf = PosInf"
| "fscale c NaN = NaN"

datatype error = KeyError | ValueError

text \<open>
  A table as \<^verbatim>\<open>pd.read_sql('SELECT * FROM ...')\<close> delivers it: the columns in order,
  each a name and its values. A frame adds the row labels: the default RangeIndex
  \<open>0, 1, ..., n - 1\<close>, or the values of the column that \<^verbatim>\<open>set_index\<close> moved there.
  A series is one column together with the labels of its frame.
\<close>

type_synonym table = "(string \<times> real list) list"

record frame =
  index :: "real list"
  columns :: table

type_synonym series = "real list \<times> real list"

definition nrows :: "table \<Rightarrow> nat" where
  "nrows t = (case t of [] \<Rightarrow> 0 | (_, v) # _ \<Rightarrow> length v)"

definition range_index :: "nat \<Rightarrow> real list" where
  "range_index n = map real [0..<n]"

definition read_sql :: "table \<Rightarrow> frame" where
  "read_sql t = \<lparr>index = range_index (nrows t), columns = t\<rparr>"

text \<open>\<^verbatim>\<open>df.set_index(name)\<close>: the column becomes the index and leaves the columns.\<close>

definition set_index :: "string \<Rightarrow> frame \<Rightarrow> error + frame" where
  "set_index name df =
     (case map_of (columns df) name of
        None \<Rightarrow> Inl KeyError
      | Some v \<Rightarrow> Inr \<lparr>index = v, columns = filter (\<lambda>(n, _). n \<noteq> name) (columns df)\<rparr>)"

text \<open>\<^verbatim>\<open>df[col]\<close>: KeyError for a name that is no column.\<close>

definition getitem :: "frame \<Rightarrow> string \<Rightarrow> error + series" where
  "getitem df col =
     (case map_of (columns df) col of
        None \<Rightarrow> Inl KeyError
      | Some v \<Rightarrow> Inr (index df, v))"

text \<open>
  \<^verbatim>\<open>df.loc[x_val, col]\<close> on a frame with unique labels: the value of the column in the
  row labelled \<open>x_val\<close>; KeyError when the label or the column is absent. For a label
  that occurs more than once pandas returns a series of all its rows instead of a number,
  and the comparison on line 183 then raises ValueError; this definition takes the first
  row there, so every result below that says what the matcher returns is stated for
  frames with unique labels (\<open>wf_frame\<close>, as in the specification's data model).
\<close>

definition loc :: "frame \<Rightarrow> real \<Rightarrow> string \<Rightarrow> error + real" where
  "loc df x_val col =
     (case map_of (columns df) col of
        None \<Rightarrow> Inl KeyError
      | Some v \<Rightarrow>
          (case map_of (zip (index df) v) x_val of
             None \<Rightarrow> Inl KeyError
           | Some y \<Rightarrow> Inr y))"

text \<open>
  \<^verbatim>\<open>a - b\<close> on two series aligns them on their labels: the result has the union of
  the labels, and NaN wherever one operand lacks the label. (The order of the result's
  labels plays no part in what follows, which only takes the maximum.)
\<close>

definition series_sub :: "series \<Rightarrow> series \<Rightarrow> (real \<times> pyfloat) list" where
  "series_sub a b =
     map (\<lambda>l. (l, case (map_of (zip (fst a) (snd a)) l, map_of (zip (fst b) (snd b)) l) of
                    (Some u, Some v) \<Rightarrow> Fin (u - v)
                  | _ \<Rightarrow> NaN))
         (remdups (fst a @ fst b))"

fun fabs :: "pyfloat \<Rightarrow> pyfloat" where
  "fabs (Fin a) = Fin \<bar>a\<bar>"
| "fabs PosInf = PosInf"
| "fabs NaN = NaN"

definition series_abs :: "(real \<times> pyfloat) list \<Rightarrow> (real \<times> pyfloat) list" where
  "series_abs s = map (\<lambda>(l, v). (l, fabs v)) s"

text \<open>\<^verbatim>\<open>Series.max()\<close> skips NaN, and is NaN when no value is left.\<close>

fun fmax :: "pyfloat \<Rightarrow> pyfloat \<Rightarrow> pyfloat" where
  "fmax NaN b = b"
| "fmax a NaN = a"
| "fmax a b = (if fle a b then b else a)"

definition series_max :: "(real \<times> pyfloat) list \<Rightarrow> pyfloat" where
  "series_max s = foldr fmax (map snd s) NaN"

text \<open>
  \<^verbatim>\<open>sklearn.metrics.mean_squared_error(y_true, y_pred)\<close> (library code): the arguments
  are read as plain arrays, so the pairing is by position; ValueError for arrays of
  different lengths or without samples. Its value is \<^verbatim>\<open>np.average((y_true - y_pred) ** 2)\<close>
  in double arithmetic: a double that is the exact mean only up to rounding, that is
  \<open>0.0\<close> when the squares underflow and \<^verbatim>\<open>inf\<close> when they overflow. That computation is
  the parameter \<open>arith\<close>, a function from the two arrays to the double computed.
\<close>

type_synonym arithmetic = "real list \<Rightarrow> real list \<Rightarrow> pyfloat"

definition mean_squared_error :: "arithmetic \<Rightarrow> series \<Rightarrow> series \<Rightarrow> error + pyfloat" where
  "mean_squared_error arith y_true y_pred =
     (if length (snd y_true) \<noteq> length (snd y_pred) \<or> snd y_true = [] then Inl ValueError
      else Inr (arith (snd y_true) (snd y_pred)))"

text \<open>
  One arithmetic, for the examples: the mean of the squared differences computed exactly,
  and \<^verbatim>\<open>inf\<close> when the sum of the squares is \<open>2 ^ 1024\<close> or more, which no double holds.
  It leaves the rounding of double arithmetic out; the examples use it on small integers,
  where the computed doubles compare as the exact means do, and on squares that overflow.
\<close>

definition exact_arith :: arithmetic where
  "exact_arith y_true y_pred =
     (let s = sum_list (map (\<lambda>(t, p). (t - p)\<^sup>2) (zip y_true y_pred))
      in if 2 ^ 1024 \<le> s then PosInf else Fin (s / real (length y_true)))"

text \<open>The column name \<^verbatim>\<open>f'y{i}'\<close>.\<close>

definition digit_char :: "nat \<Rightarrow> char" where
  "digit_char d = ''0123456789'' ! d"

fun str_nat :: "nat \<Rightarrow> string" where
  "str_nat n = (if n < 10 then [digit_char n] else str_nat (n div 10) @ [digit_char (n mod 10)])"

declare str_nat.simps [simp del]

definition col_name :: "nat \<Rightarrow> string" where
  "col_name i = ''y'' @ str_nat i"

section \<open>Best-fit selection\<close>

text \<open>The error of one candidate column: \<^verbatim>\<open>mean_squared_error(training_series, ideal_df[col])\<close>.\<close>

definition mse_col :: "arithmetic \<Rightarrow> series \<Rightarrow> frame \<Rightarrow> string \<Rightarrow> error + pyfloat" where
  "mse_col arith training_series ideal_df col =
     (case getitem ideal_df col of
        Inl e \<Rightarrow> Inl e
      | Inr s \<Rightarrow> mean_squared_error arith training_series s)"

text \<open>
  The loop of \<^verbatim>\<open>_find_best_fit\<close> over \<^verbatim>\<open>ideal_df.columns\<close>, with the state
  \<open>(min_mse, best_func)\<close>.
\<close>

fun best_fit_loop ::
  "arithmetic \<Rightarrow> series \<Rightarrow> frame \<Rightarrow> string list \<Rightarrow> pyfloat \<times> string option
     \<Rightarrow> error + (pyfloat \<times> string option)"
where
  "best_fit_loop arith training_series ideal_df [] st = Inr st"
| "best_fit_loop arith training_series ideal_df (col # cols) (min_mse, best_func) =
     (case mse_col arith training_series ideal_df col of
        Inl e \<Rightarrow> Inl e
      | Inr mse \<Rightarrow>
          if flt mse min_mse
          then best_fit_loop arith training_series ideal_df cols (mse, Some col)
          else best_fit_loop arith training_series ideal_df cols (min_mse, best_func))"

definition find_best_fit :: "arithmetic \<Rightarrow> series \<Rightarrow> frame \<Rightarrow> error + string option" where
  "find_best_fit arith training_series ideal_df =
     (case best_fit_loop arith training_series ideal_df (map fst (columns ideal_df)) (PosInf, None) of
        Inl e \<Rightarrow> Inl e
      | Inr (min_mse, best_func) \<Rightarrow> Inr best_func)"

section \<open>Matching a test point\<close>

text \<open>
  \<^verbatim>\<open>abs(y_val - ideal_df.loc[x_val, ideal_func])\<close>. The selected function is
  \<^verbatim>\<open>None\<close> when the selection ran over no column; no column has that name.
\<close>

definition deviation_of :: "frame \<Rightarrow> real \<Rightarrow> real \<Rightarrow> string option \<Rightarrow> error + real" where
  "deviation_of ideal_df x_val y_val ideal_func =
     (case ideal_func of
        None \<Rightarrow> Inl KeyError
      | Some col \<Rightarrow>
          (case loc ideal_df x_val col of
             Inl e \<Rightarrow> Inl e
           | Inr v \<Rightarrow> Inr \<bar>y_val - v\<bar>))"

text \<open>
  \<^verbatim>\<open>np.sqrt(2) * abs(training_df[f'y{idx+1}'] - ideal_df[ideal_func]).max()\<close>
\<close>

definition max_allowed_deviation :: "frame \<Rightarrow> frame \<Rightarrow> nat \<Rightarrow> string option \<Rightarrow> error + pyfloat" where
  "max_allowed_deviation training_df ideal_df idx ideal_func =
     (case getitem training_df (col_name (idx + 1)) of
        Inl e \<Rightarrow> Inl e
      | Inr t \<Rightarrow>
          (case ideal_func of
             None \<Rightarrow> Inl KeyError
           | Some col \<Rightarrow>
               (case getitem ideal_df col of
                  Inl e \<Rightarrow> Inl e
                | Inr c \<Rightarrow> Inr (fscale (sqrt 2) (series_max (series_abs (series_sub t c)))))))"

text \<open>
  The loop of \<^verbatim>\<open>_find_best_match\<close> over \<^verbatim>\<open>enumerate(best_fit_funcs)\<close>, with the
  state \<open>(min_deviation, best_fit)\<close>.
\<close>

fun best_match_loop ::
  "real \<Rightarrow> real \<Rightarrow> frame \<Rightarrow> frame \<Rightarrow> (nat \<times> string option) list \<Rightarrow> pyfloat \<times> nat option
     \<Rightarrow> error + (pyfloat \<times> nat option)"
where
  "best_match_loop x_val y_val ideal_df training_df [] st = Inr st"
| "best_match_loop x_val y_val ideal_df training_df ((idx, ideal_func) # rest) (min_deviation, best_fit) =
     (case deviation_of ideal_df x_val y_val ideal_func of
        Inl e \<Rightarrow> Inl e
      | Inr deviation \<Rightarrow>
          (case max_allowed_deviation training_df ideal_df idx ideal_func of
             Inl e \<Rightarrow> Inl e
           | Inr mad \<Rightarrow>
               if fle (Fin deviation) mad \<and> flt (Fin deviation) min_deviation
               then best_match_loop x_val y_val ideal_df training_df rest (Fin deviation, Some (idx + 1))
               else best_match_loop x_val y_val ideal_df training_df rest (min_deviation, best_fit)))"

definition enumerate_list :: "'a list \<Rightarrow> (nat \<times> 'a) list" where
  "enumerate_list xs = zip [0..<length xs] xs"

definition find_best_match ::
  "real \<Rightarrow> real \<Rightarrow> string option list \<Rightarrow> frame \<Rightarrow> frame \<Rightarrow> error + (nat option \<times> pyfloat)"
where
  "find_best_match x_val y_val best_fit_funcs ideal_df training_df =
     (case best_match_loop x_val y_val ideal_df training_df (enumerate_list best_fit_funcs) (PosInf, None) of
        Inl e \<Rightarrow> Inl e
      | Inr (min_deviation, best_fit) \<Rightarrow> Inr (best_fit, min_deviation))"

section \<open>The run over the test data\<close>

record result_row =
  row_x :: real
  row_y :: real
  delta_y :: pyfloat
  ideal_func_no :: "nat option"

text \<open>The first loop of \<^verbatim>\<open>map_test_data\<close>: one selection per training column.\<close>

fun select_best_fits ::
  "arithmetic \<Rightarrow> frame \<Rightarrow> frame \<Rightarrow> nat list \<Rightarrow> error + string option list"
where
  "select_best_fits arith training_df ideal_df [] = Inr []"
| "select_best_fits arith training_df ideal_df (i # is) =
     (case getitem training_df (col_name i) of
        Inl e \<Rightarrow> Inl e
      | Inr s \<Rightarrow>
          (case find_best_fit arith s ideal_df of
             Inl e \<Rightarrow> Inl e
           | Inr best_func \<Rightarrow>
               (case select_best_fits arith training_df ideal_df is of
                  Inl e \<Rightarrow> Inl e
                | Inr fs \<Rightarrow> Inr (best_func # fs))))"

text \<open>The second loop: one result row per row of the test data.\<close>

fun match_rows ::
  "(real \<times> real) list \<Rightarrow> string option list \<Rightarrow> frame \<Rightarrow> frame \<Rightarrow> error + result_row list"
where
  "match_rows [] best_fit_funcs ideal_df training_df = Inr []"
| "match_rows ((x, y) # rows) best_fit_funcs ideal_df training_df =
     (case find_best_match x y best_fit_funcs ideal_df training_df of
        Inl e \<Rightarrow> Inl e
      | Inr (best_fit, min_deviation) \<Rightarrow>
          (case match_rows rows best_fit_funcs ideal_df training_df of
             Inl e \<Rightarrow> Inl e
           | Inr results \<Rightarrow>
               Inr (\<lparr>row_x = x, row_y = y, delta_y = min_deviation, ideal_func_no = best_fit\<rparr> # results)))"

definition map_test_data ::
  "arithmetic \<Rightarrow> (real \<times> real) list \<Rightarrow> table \<Rightarrow> table \<Rightarrow> error + result_row list"
where
  "map_test_data arith test_df ideal_functions training_data =
     (case set_index ''x'' (read_sql ideal_functions) of
        Inl e \<Rightarrow> Inl e
      | Inr ideal_df \<Rightarrow>
          (let training_df = read_sql training_data in
           case select_best_fits arith training_df ideal_df [1, 2, 3, 4] of
             Inl e \<Rightarrow> Inl e
           | Inr best_fit_funcs \<Rightarrow> match_rows test_df best_fit_funcs ideal_df training_df))"

section \<open>Notions used to state the properties\<close>

text \<open>
  Entry \<open>j\<close> of \<^verbatim>\<open>best_fit_funcs\<close> is eligible for a test point when both lookups of
  the loop body succeed and the deviation is within the tolerance the body computes.
\<close>

definition eligible :: "real \<Rightarrow> real \<Rightarrow> string option list \<Rightarrow> frame \<Rightarrow> frame \<Rightarrow> nat \<Rightarrow> bool" where
  "eligible x_val y_val best_fit_funcs ideal_df training_df j \<longleftrightarrow>
     j < length best_fit_funcs \<and>
     (case deviation_of ideal_df x_val y_val (best_fit_funcs ! j) of
        Inl e \<Rightarrow> False
      | Inr d \<Rightarrow>
          (case max_allowed_deviation training_df ideal_df j (best_fit_funcs ! j) of
             Inl e \<Rightarrow> False
           | Inr m \<Rightarrow> fle (Fin d) m))"

text \<open>Some candidate column has a finite computed mean squared error.\<close>

definition has_finite_mse :: "arithmetic \<Rightarrow> series \<Rightarrow> frame \<Rightarrow> bool" where
  "has_finite_mse arith training_series ideal_df \<longleftrightarrow>
     list_ex (\<lambda>c. case mse_col arith training_series ideal_df c of
                     Inr (Fin m) \<Rightarrow> True
                   | _ \<Rightarrow> False)
             (map fst (columns ideal_df))"

text \<open>The same for one entry of the enumeration, with the deviation named.\<close>

definition entry_ok :: "real \<Rightarrow> real \<Rightarrow> frame \<Rightarrow> frame \<Rightarrow> nat \<times> string option \<Rightarrow> real \<Rightarrow> bool" where
  "entry_ok x_val y_val ideal_df training_df e d \<longleftrightarrow>
     deviation_of ideal_df x_val y_val (snd e) = Inr d \<and>
     (case max_allowed_deviation training_df ideal_df (fst e) (snd e) of
        Inl err \<Rightarrow> False
      | Inr m \<Rightarrow> fle (Fin d) m)"

text \<open>
  The labels of a frame are unique (the specification's \<open>unique x per series\<close>), and every
  column has one value per label, as in every pandas frame.
\<close>

definition wf_frame :: "frame \<Rightarrow> bool" where
  "wf_frame df \<longleftrightarrow>
     distinct (index df) \<and> list_all (\<lambda>(n, v). length v = length (index df)) (columns df)"

text \<open>
  Every selected function is a column of the ideal frame, and the training frame has a
  column \<^verbatim>\<open>y{j+1}\<close> for every entry \<open>j\<close>: no column lookup of the matcher fails.
\<close>

definition selection_ok :: "string option list \<Rightarrow> frame \<Rightarrow> frame \<Rightarrow> bool" where
  "selection_ok best_fit_funcs ideal_df training_df \<longleftrightarrow>
     list_all (\<lambda>(j, f). (case f of None \<Rightarrow> False | Some c \<Rightarrow> c \<in> set (map fst (columns ideal_df)))
                       \<and> col_name (j + 1) \<in> set (map fst (columns training_df)))
              (enumerate_list best_fit_funcs)"

subsection \<open>The fit assignment computed once\<close>

text \<open>
  The specification's FitAssignment: for every training series the selected candidate
  with its max-allowed-deviation, computed before any test point is looked at, and a
  matcher that only reads it. The tolerance of an entry is the one the code computes.
\<close>

fun fit_assignment ::
  "frame \<Rightarrow> frame \<Rightarrow> (nat \<times> string option) list \<Rightarrow> error + (nat \<times> string option \<times> pyfloat) list"
where
  "fit_assignment training_df ideal_df [] = Inr []"
| "fit_assignment training_df ideal_df ((idx, ideal_func) # rest) =
     (case max_allowed_deviation training_df ideal_df idx ideal_func of
        Inl e \<Rightarrow> Inl e
      | Inr mad \<Rightarrow>
          (case fit_assignment training_df ideal_df rest of
             Inl e \<Rightarrow> Inl e
           | Inr fa \<Rightarrow> Inr ((idx, ideal_func, mad) # fa)))"

fun match_assigned ::
  "real \<Rightarrow> real \<Rightarrow> frame \<Rightarrow> (nat \<times> string option \<times> pyfloat) list \<Rightarrow> pyfloat \<times> nat option
     \<Rightarrow> error + (pyfloat \<times> nat option)"
where
  "match_assigned x_val y_val ideal_df [] st = Inr st"
| "match_assigned x_val y_val ideal_df ((idx, ideal_func, mad) # rest) (min_deviation, best_fit) =
     (case deviation_of ideal_df x_val y_val ideal_func of
        Inl e \<Rightarrow> Inl e
      | Inr deviation \<Rightarrow>
          if fle (Fin deviation) mad \<and> flt (Fin deviation) min_deviation
          then match_assigned x_val y_val ideal_df rest (Fin deviation, Some (idx + 1))
          else match_assigned x_val y_val ideal_df rest (min_deviation, best_fit))"

definition match_point_assigned ::
  "real \<Rightarrow> real \<Rightarrow> frame \<Rightarrow> (nat \<times> string option \<times> pyfloat) list \<Rightarrow> error + (nat option \<times> pyfloat)"
where
  "match_point_assigned x_val y_val ideal_df fa =
     (case match_assigned x_val y_val ideal_df fa (PosInf, None) of
        Inl e \<Rightarrow> Inl e
      | Inr (min_deviation, best_fit) \<Rightarrow> Inr (best_fit, min_deviation))"

definition find_best_match_precomputed ::
  "real \<Rightarrow> real \<Rightarrow> string option list \<Rightarrow> frame \<Rightarrow> frame \<Rightarrow> error + (nat option \<times> pyfloat)"
where
  "find_best_match_precomputed x_val y_val best_fit_funcs ideal_df training_df =
     (case fit_assignment training_df ideal_df (enumerate_list best_fit_funcs) of
        Inl e \<Rightarrow> Inl e
      | Inr fa \<Rightarrow> match_point_assigned x_val y_val ideal_df fa)"

fun match_rows_assigned ::
  "(real \<times> real) list \<Rightarrow> (nat \<times> string option \<times> pyfloat) list \<Rightarrow> frame \<Rightarrow> error + result_row list"
where
  "match_rows_assigned [] fa ideal_df = Inr []"
| "match_rows_assigned ((x, y) # rows) fa ideal_df =
     (case match_point_assigned x y ideal_df fa of
        Inl e \<Rightarrow> Inl e
      | Inr (best_fit, min_deviation) \<Rightarrow>
          (case match_rows_assigned rows fa ideal_df of
             Inl e \<Rightarrow> Inl e
           | Inr results \<Rightarrow>
               Inr (\<lparr>row_x = x, row_y = y, delta_y = min_deviation, ideal_func_no = best_fit\<rparr> # results)))"

subsection \<open>The tolerance over shared x values\<close>

text \<open>
  The specification's max-allowed-deviation pairs the training value and the candidate
  value at the same x. That is the value of the code's expression when the training frame
  is labelled by its \<open>x\<close> column, as the ideal frame is.
\<close>

definition shared_x_max_allowed_deviation :: "frame \<Rightarrow> frame \<Rightarrow> nat \<Rightarrow> string option \<Rightarrow> error + pyfloat" where
  "shared_x_max_allowed_deviation training_df ideal_df idx ideal_func =
     (case set_index ''x'' training_df of
        Inl e \<Rightarrow> Inl e
      | Inr by_x \<Rightarrow> max_allowed_deviation by_x ideal_df idx ideal_func)"

subsection \<open>Example data\<close>

text \<open>
  Two candidates \<open>y = x\<close> and \<open>y = 2x\<close> over \<open>x = 0, 1, 2\<close> and four training series.
\<close>

definition ex_ideal :: table where
  "ex_ideal = [(''x'', [0, 1, 2]), (''y1'', [0, 1, 2]), (''y2'', [0, 2, 4])]"

definition ex_training :: table where
  "ex_training = [(''x'', [0, 1, 2]), (''y1'', [0, 2, 5]), (''y2'', [0, 1, 2]),
                  (''y3'', [0, 1, 2]), (''y4'', [0, 2, 4])]"

definition ex_ideal_df :: frame where
  "ex_ideal_df = \<lparr>index = [0, 1, 2], columns = [(''y1'', [0, 1, 2]), (''y2'', [0, 2, 4])]\<rparr>"

definition ex_funcs :: "string option list" where
  "ex_funcs = [Some ''y2'', Some ''y1'', Some ''y1'', Some ''y2'']"

definition ex_y1 :: series where
  "ex_y1 = ([0, 1, 2], [0, 2, 5])"

definition ex_fa :: "(nat \<times> string option \<times> pyfloat) list" where
  "ex_fa = [(0, Some ''y2'', Fin (sqrt 2)), (1, Some ''y1'', Fin 0),
            (2, Some ''y1'', Fin 0), (3, Some ''y2'', Fin 0)]"

definition no_candidates_df :: frame where
  "no_candidates_df = \<lparr>index = [0, 1, 2], columns = []\<rparr>"

definition short_candidate_df :: frame where
  "short_candidate_df = \<lparr>index = [0, 1], columns = [(''y1'', [0, 1])]\<rparr>"

text \<open>A training value whose square no double holds, against two candidates.\<close>

definition huge_y :: series where
  "huge_y = ([0], [2 ^ 520])"

definition zero_df :: frame where
  "zero_df = \<lparr>index = [0], columns = [(''y1'', [0]), (''y2'', [0])]\<rparr>"

text \<open>
  A second pair of tables, with one candidate and x values that start at 1, so that row
  numbers and x values differ; the training series and the candidate agree at every x.
  Every training series selects the one candidate.
\<close>

definition shifted_ideal :: table where
  "shifted_ideal = [(''x'', [1, 2]), (''y1'', [10, 20])]"

definition shifted_training :: table where
  "shifted_training = [(''x'', [1, 2]), (''y1'', [10, 20]), (''y2'', [10, 20]),
                       (''y3'', [10, 20]), (''y4'', [10, 20])]"

definition shifted_ideal_df :: frame where
  "shifted_ideal_df = \<lparr>index = [1, 2], columns = [(''y1'', [10, 20])]\<rparr>"

definition y1_funcs :: "string option list" where
  "y1_funcs = [Some ''y1'', Some ''y1'', Some ''y1'', Some ''y1'']"

text \<open>
  A third pair of tables, in which no x value is a row number; again the training series
  and the candidate agree at every x.
\<close>

definition far_ideal :: table where
  "far_ideal = [(''x'', [10, 20]), (''y1'', [1, 2])]"

definition far_training :: table where
  "far_training = [(''x'', [10, 20]), (''y1'', [1, 2]), (''y2'', [1, 2]),
                   (''y3'', [1, 2]), (''y4'', [1, 2])]"

definition far_ideal_df :: frame where
  "far_ideal_df = \<lparr>index = [10, 20], columns = [(''y1'', [1, 2])]\<rparr>"

section \<open>The example data, evaluated\<close>

lemma col_name_small:
  "col_name (Suc 0) = ''y1''" "col_name (Suc (Suc 0)) = ''y2''"
  "col_name (Suc (Suc (Suc 0))) = ''y3''" "col_name (Suc (Suc (Suc (Suc 0)))) = ''y4''"
  "col_name 1 = ''y1''" "col_name 2 = ''y2''" "col_name 3 = ''y3''" "col_name 4 = ''y4''"
  by (simp_all add: col_name_def str_nat.simps digit_char_def)

lemma sqrt2_bounds:
  "1 \<le> sqrt 2" "sqrt 2 < 2" "1 \<le> sqrt 2 * 2" "\<not> 3 \<le> sqrt 2" "14 \<le> sqrt 2 * 10"
proof -
  show "1 \<le> sqrt 2" by simp
  have "sqrt 2 < sqrt 4" by (simp only: real_sqrt_less_iff)
  also have "sqrt 4 = 2" using real_sqrt_abs [of 2] by simp
  finally show lt: "sqrt 2 < 2" .
  have "1 \<le> sqrt 2" by simp
  then show "1 \<le> sqrt 2 * 2" by linarith
  from lt show "\<not> 3 \<le> sqrt 2" by linarith
  have "(14 / 10)\<^sup>2 \<le> (2::real)" by (simp add: power2_eq_square)
  then have "14 / 10 \<le> sqrt 2" by (rule real_le_rsqrt)
  then show "14 \<le> sqrt 2 * 10" by linarith
qed

subsection \<open>Two candidates over x = 0, 1, 2\<close>

lemma ex_read_ideal: "set_index ''x'' (read_sql ex_ideal) = Inr ex_ideal_df"
  by (simp add: set_index_def read_sql_def ex_ideal_def ex_ideal_df_def)

lemma ex_read_training:
  "read_sql ex_training = \<lparr>index = [0, 1, 2], columns = ex_training\<rparr>"
  by (simp add: read_sql_def nrows_def ex_training_def range_index_def upt_rec)

lemma ex_fit1: "find_best_fit exact_arith ([0, 1, 2], [0, 2, 5]) ex_ideal_df = Inr (Some ''y2'')"
  by (simp add: find_best_fit_def mse_col_def getitem_def mean_squared_error_def ex_ideal_df_def
      exact_arith_def)

lemma ex_fit2: "find_best_fit exact_arith ([0, 1, 2], [0, 1, 2]) ex_ideal_df = Inr (Some ''y1'')"
  by (simp add: find_best_fit_def mse_col_def getitem_def mean_squared_error_def ex_ideal_df_def
      exact_arith_def)

lemma ex_fit4: "find_best_fit exact_arith ([0, 1, 2], [0, 2, 4]) ex_ideal_df = Inr (Some ''y2'')"
  by (simp add: find_best_fit_def mse_col_def getitem_def mean_squared_error_def ex_ideal_df_def
      exact_arith_def)

lemma ex_fit_other_labels:
  "find_best_fit exact_arith ([7, 8, 9], [0, 2, 5]) ex_ideal_df = Inr (Some ''y2'')"
  by (simp add: find_best_fit_def mse_col_def getitem_def mean_squared_error_def ex_ideal_df_def
      exact_arith_def)

lemma ex_select:
  "select_best_fits exact_arith (read_sql ex_training) ex_ideal_df [1, 2, 3, 4] = Inr ex_funcs"
  unfolding ex_read_training
  by (simp add: col_name_small getitem_def ex_training_def ex_fit1 ex_fit2 ex_fit4 ex_funcs_def)

lemma ex_mad:
  "max_allowed_deviation (read_sql ex_training) ex_ideal_df 0 (Some ''y2'') = Inr (Fin (sqrt 2))"
  "max_allowed_deviation (read_sql ex_training) ex_ideal_df (Suc 0) (Some ''y1'') = Inr (Fin 0)"
  "max_allowed_deviation (read_sql ex_training) ex_ideal_df (Suc (Suc 0)) (Some ''y1'') = Inr (Fin 0)"
  "max_allowed_deviation (read_sql ex_training) ex_ideal_df (Suc (Suc (Suc 0))) (Some ''y2'') = Inr (Fin 0)"
  unfolding ex_read_training
  by (simp_all add: max_allowed_deviation_def col_name_small getitem_def ex_training_def
      ex_ideal_df_def series_sub_def series_abs_def series_max_def)

lemma ex_dev:
  "deviation_of ex_ideal_df 1 y (Some ''y1'') = Inr \<bar>y - 1\<bar>"
  "deviation_of ex_ideal_df 1 y (Some ''y2'') = Inr \<bar>y - 2\<bar>"
  by (simp_all add: deviation_of_def loc_def ex_ideal_df_def)

lemma ex_enum:
  "enumerate_list ex_funcs =
     [(0, Some ''y2''), (Suc 0, Some ''y1''), (Suc (Suc 0), Some ''y1''), (Suc (Suc (Suc 0)), Some ''y2'')]"
  by (simp add: enumerate_list_def ex_funcs_def upt_rec)

lemma ex_match_assigned:
  "find_best_match 1 (5 / 2) ex_funcs ex_ideal_df (read_sql ex_training) = Inr (Some 1, Fin (1 / 2))"
  using sqrt2_bounds by (simp add: find_best_match_def ex_enum ex_dev ex_mad)

lemma ex_match_none:
  "find_best_match 1 5 ex_funcs ex_ideal_df (read_sql ex_training) = Inr (None, PosInf)"
  using sqrt2_bounds by (simp add: find_best_match_def ex_enum ex_dev ex_mad)

lemma ex_match_missing:
  "find_best_match 3 0 ex_funcs ex_ideal_df (read_sql ex_training) = Inl KeyError"
  by (simp add: find_best_match_def ex_enum deviation_of_def loc_def ex_ideal_df_def)

lemma ex_run_eq:
  "map_test_data exact_arith pts ex_ideal ex_training
     = match_rows pts ex_funcs ex_ideal_df (read_sql ex_training)"
  by (simp only: map_test_data_def Let_def ex_read_ideal sum.case ex_select)

lemma ex_run:
  "map_test_data exact_arith [(1, 5 / 2), (1, 5)] ex_ideal ex_training =
     Inr [\<lparr>row_x = 1, row_y = 5 / 2, delta_y = Fin (1 / 2), ideal_func_no = Some 1\<rparr>,
          \<lparr>row_x = 1, row_y = 5, delta_y = PosInf, ideal_func_no = None\<rparr>]"
  by (simp add: ex_run_eq ex_match_assigned ex_match_none)

lemma ex_run_missing:
  "map_test_data exact_arith [(1, 5 / 2), (3, 0)] ex_ideal ex_training = Inl KeyError"
  by (simp add: ex_run_eq ex_match_assigned ex_match_missing)

subsection \<open>A training value whose square overflows\<close>

lemma huge_mse:
  "mse_col exact_arith huge_y zero_df ''y1'' = Inr PosInf"
  "mse_col exact_arith huge_y zero_df ''y2'' = Inr PosInf"
  by (simp_all add: mse_col_def getitem_def mean_squared_error_def huge_y_def zero_df_def
      exact_arith_def)

lemma huge_fit: "find_best_fit exact_arith huge_y zero_df = Inr None"
  by (simp add: find_best_fit_def mse_col_def getitem_def mean_squared_error_def huge_y_def
      zero_df_def exact_arith_def)

subsection \<open>One candidate over x = 1, 2\<close>

lemma y1_enum:
  "enumerate_list y1_funcs =
     [(0, Some ''y1''), (Suc 0, Some ''y1''), (Suc (Suc 0), Some ''y1''), (Suc (Suc (Suc 0)), Some ''y1'')]"
  by (simp add: enumerate_list_def y1_funcs_def upt_rec)

lemma shifted_read_ideal: "set_index ''x'' (read_sql shifted_ideal) = Inr shifted_ideal_df"
  by (simp add: set_index_def read_sql_def shifted_ideal_def shifted_ideal_df_def)

lemma shifted_read: "read_sql shifted_training = \<lparr>index = [0, 1], columns = shifted_training\<rparr>"
  by (simp add: read_sql_def nrows_def shifted_training_def range_index_def upt_rec)

lemma shifted_fit: "find_best_fit exact_arith ([0, 1], [10, 20]) shifted_ideal_df = Inr (Some ''y1'')"
  by (simp add: find_best_fit_def mse_col_def getitem_def mean_squared_error_def
      shifted_ideal_df_def exact_arith_def)

lemma shifted_select:
  "select_best_fits exact_arith (read_sql shifted_training) shifted_ideal_df [1, 2, 3, 4]
     = Inr y1_funcs"
  unfolding shifted_read
  by (simp add: col_name_small getitem_def shifted_training_def shifted_fit y1_funcs_def)

lemma shifted_mad:
  "max_allowed_deviation (read_sql shifted_training) shifted_ideal_df 0 (Some ''y1'') = Inr (Fin (sqrt 2 * 10))"
  unfolding shifted_read
  by (simp add: max_allowed_deviation_def col_name_small getitem_def shifted_training_def
      shifted_ideal_df_def series_sub_def series_abs_def series_max_def)

lemma shifted_mad_rest:
  "max_allowed_deviation (read_sql shifted_training) shifted_ideal_df (Suc 0) (Some ''y1'') = Inr (Fin (sqrt 2 * 10))"
  "max_allowed_deviation (read_sql shifted_training) shifted_ideal_df (Suc (Suc 0)) (Some ''y1'') = Inr (Fin (sqrt 2 * 10))"
  "max_allowed_deviation (read_sql shifted_training) shifted_ideal_df (Suc (Suc (Suc 0))) (Some ''y1'') = Inr (Fin (sqrt 2 * 10))"
  unfolding shifted_read
  by (simp_all add: max_allowed_deviation_def col_name_small getitem_def shifted_training_def
      shifted_ideal_df_def series_sub_def series_abs_def series_max_def)

lemma shifted_spec:
  "shared_x_max_allowed_deviation (read_sql shifted_training) shifted_ideal_df 0 (Some ''y1'') = Inr (Fin 0)"
  unfolding shifted_read
  by (simp add: shared_x_max_allowed_deviation_def set_index_def max_allowed_deviation_def col_name_small getitem_def shifted_training_def
      shifted_ideal_df_def series_sub_def series_abs_def series_max_def)

lemma shifted_spec_rest:
  "shared_x_max_allowed_deviation (read_sql shifted_training) shifted_ideal_df 1 (Some ''y1'') = Inr (Fin 0)"
  "shared_x_max_allowed_deviation (read_sql shifted_training) shifted_ideal_df 2 (Some ''y1'') = Inr (Fin 0)"
  "shared_x_max_allowed_deviation (read_sql shifted_training) shifted_ideal_df 3 (Some ''y1'') = Inr (Fin 0)"
  unfolding shifted_read
  by (simp_all add: shared_x_max_allowed_deviation_def set_index_def max_allowed_deviation_def col_name_small getitem_def shifted_training_def
      shifted_ideal_df_def series_sub_def series_abs_def series_max_def eval_nat_numeral)

lemma shifted_dev: "deviation_of shifted_ideal_df 1 y (Some ''y1'') = Inr \<bar>y - 10\<bar>"
  by (simp add: deviation_of_def loc_def shifted_ideal_df_def)

lemma shifted_match:
  "find_best_match 1 24 y1_funcs shifted_ideal_df (read_sql shifted_training) = Inr (Some 1, Fin 14)"
  using sqrt2_bounds by (simp add: find_best_match_def y1_enum shifted_dev shifted_mad shifted_mad_rest)

lemma shifted_run_eq:
  "map_test_data exact_arith pts shifted_ideal shifted_training
     = match_rows pts y1_funcs shifted_ideal_df (read_sql shifted_training)"
  by (simp only: map_test_data_def Let_def shifted_read_ideal sum.case shifted_select)

subsection \<open>One candidate over x = 10, 20\<close>

lemma far_read_ideal: "set_index ''x'' (read_sql far_ideal) = Inr far_ideal_df"
  by (simp add: set_index_def read_sql_def far_ideal_def far_ideal_df_def)

lemma far_read: "read_sql far_training = \<lparr>index = [0, 1], columns = far_training\<rparr>"
  by (simp add: read_sql_def nrows_def far_training_def range_index_def upt_rec)

lemma far_fit: "find_best_fit exact_arith ([0, 1], [1, 2]) far_ideal_df = Inr (Some ''y1'')"
  by (simp add: find_best_fit_def mse_col_def getitem_def mean_squared_error_def
      far_ideal_df_def exact_arith_def)

lemma far_select:
  "select_best_fits exact_arith (read_sql far_training) far_ideal_df [1, 2, 3, 4] = Inr y1_funcs"
  unfolding far_read
  by (simp add: col_name_small getitem_def far_training_def far_fit y1_funcs_def)

lemma far_mad:
  "max_allowed_deviation (read_sql far_training) far_ideal_df 0 (Some ''y1'') = Inr NaN"
  "max_allowed_deviation (read_sql far_training) far_ideal_df (Suc 0) (Some ''y1'') = Inr NaN"
  "max_allowed_deviation (read_sql far_training) far_ideal_df (Suc (Suc 0)) (Some ''y1'') = Inr NaN"
  "max_allowed_deviation (read_sql far_training) far_ideal_df (Suc (Suc (Suc 0))) (Some ''y1'') = Inr NaN"
  unfolding far_read
  by (simp_all add: max_allowed_deviation_def col_name_small getitem_def far_training_def
      far_ideal_df_def series_sub_def series_abs_def series_max_def)

lemma far_spec:
  "shared_x_max_allowed_deviation (read_sql far_training) far_ideal_df 0 (Some ''y1'') = Inr (Fin 0)"
  unfolding far_read
  by (simp add: shared_x_max_allowed_deviation_def set_index_def max_allowed_deviation_def
      col_name_small getitem_def far_training_def far_ideal_df_def series_sub_def series_abs_def
      series_max_def)

lemma far_dev: "deviation_of far_ideal_df 10 1 (Some ''y1'') = Inr 0"
  by (simp add: deviation_of_def loc_def far_ideal_df_def)

lemma far_match:
  "find_best_match 10 1 y1_funcs far_ideal_df (read_sql far_training) = Inr (None, PosInf)"
  by (simp add: find_best_match_def y1_enum far_dev far_mad)

section \<open>Properties of the best-fit selection\<close>

lemma flt_trans: "flt a b \<Longrightarrow> flt b c \<Longrightarrow> flt a c"
  by (cases a; cases b; cases c) auto

lemma flt_not_fle: "flt a b \<Longrightarrow> \<not> fle b a"
  by (cases a; cases b) auto

lemma fle_flt_trans: "fle a b \<Longrightarrow> flt b c \<Longrightarrow> flt a c"
  by (cases a; cases b; cases c) auto

lemma flt_PosInf_iff: "flt v PosInf \<longleftrightarrow> (\<exists>m. v = Fin m)"
  by (cases v) auto

lemma best_fit_loop_char:
  assumes "\<forall>c\<in>set cols. \<exists>v. mse_col arith ts df c = Inr v"
  shows "\<exists>mm bf. best_fit_loop arith ts df cols (mn, b) = Inr (mm, bf) \<and>
    ((mm = mn \<and> bf = b \<and> (\<forall>c\<in>set cols. \<forall>v. mse_col arith ts df c = Inr v \<longrightarrow> \<not> flt v mn))
     \<or> (\<exists>pre c post. cols = pre @ c # post \<and> bf = Some c \<and> mse_col arith ts df c = Inr mm
           \<and> flt mm mn
           \<and> (\<forall>c'\<in>set pre. \<forall>v. mse_col arith ts df c' = Inr v \<longrightarrow> \<not> fle v mm)
           \<and> (\<forall>c'\<in>set post. \<forall>v. mse_col arith ts df c' = Inr v \<longrightarrow> \<not> flt v mm)))"
  using assms
proof (induction cols arbitrary: mn b)
  case Nil
  then show ?case by simp
next
  case (Cons c cols)
  let ?val = "\<lambda>c v. mse_col arith ts df c = Inr v"
  from Cons.prems obtain v0 where v0: "?val c v0" by auto
  from Cons.prems have rest: "\<forall>c\<in>set cols. \<exists>v. ?val c v" by simp
  have only: "?val c v \<longleftrightarrow> v = v0" for v using v0 by auto
  show ?case
  proof (cases "flt v0 mn")
    case True
    from Cons.IH [OF rest, of v0 "Some c"]
    obtain mm bf where run: "best_fit_loop arith ts df cols (v0, Some c) = Inr (mm, bf)"
      and alt: "(mm = v0 \<and> bf = Some c \<and> (\<forall>d\<in>set cols. \<forall>v. ?val d v \<longrightarrow> \<not> flt v v0))
        \<or> (\<exists>pre c' post. cols = pre @ c' # post \<and> bf = Some c' \<and> ?val c' mm \<and> flt mm v0
           \<and> (\<forall>d\<in>set pre. \<forall>v. ?val d v \<longrightarrow> \<not> fle v mm)
           \<and> (\<forall>d\<in>set post. \<forall>v. ?val d v \<longrightarrow> \<not> flt v mm))"
      by blast
    have whole: "best_fit_loop arith ts df (c # cols) (mn, b) = Inr (mm, bf)"
      using v0 True run by simp
    from alt show ?thesis
    proof
      assume a: "mm = v0 \<and> bf = Some c \<and> (\<forall>d\<in>set cols. \<forall>v. ?val d v \<longrightarrow> \<not> flt v v0)"
      have "c # cols = [] @ c # cols \<and> bf = Some c \<and> ?val c mm \<and> flt mm mn
           \<and> (\<forall>d\<in>set []. \<forall>v. ?val d v \<longrightarrow> \<not> fle v mm)
           \<and> (\<forall>d\<in>set cols. \<forall>v. ?val d v \<longrightarrow> \<not> flt v mm)"
        using a v0 True by auto
      then show ?thesis using whole by blast
    next
      assume "\<exists>pre c' post. cols = pre @ c' # post \<and> bf = Some c' \<and> ?val c' mm \<and> flt mm v0
           \<and> (\<forall>d\<in>set pre. \<forall>v. ?val d v \<longrightarrow> \<not> fle v mm)
           \<and> (\<forall>d\<in>set post. \<forall>v. ?val d v \<longrightarrow> \<not> flt v mm)"
      then obtain pre c' post where f: "cols = pre @ c' # post" "bf = Some c'" "?val c' mm"
        "flt mm v0"
        "\<forall>d\<in>set pre. \<forall>v. ?val d v \<longrightarrow> \<not> fle v mm"
        "\<forall>d\<in>set post. \<forall>v. ?val d v \<longrightarrow> \<not> flt v mm"
        by blast
      have lt: "flt mm mn" using flt_trans [OF f(4)] True by simp
      have "\<forall>v. ?val c v \<longrightarrow> \<not> fle v mm" using only flt_not_fle [OF f(4)] by simp
      then have "c # cols = (c # pre) @ c' # post \<and> bf = Some c' \<and> ?val c' mm \<and> flt mm mn
           \<and> (\<forall>d\<in>set (c # pre). \<forall>v. ?val d v \<longrightarrow> \<not> fle v mm)
           \<and> (\<forall>d\<in>set post. \<forall>v. ?val d v \<longrightarrow> \<not> flt v mm)"
        using f lt by simp
      then show ?thesis using whole by blast
    qed
  next
    case False
    from Cons.IH [OF rest, of mn b]
    obtain mm bf where run: "best_fit_loop arith ts df cols (mn, b) = Inr (mm, bf)"
      and alt: "(mm = mn \<and> bf = b \<and> (\<forall>d\<in>set cols. \<forall>v. ?val d v \<longrightarrow> \<not> flt v mn))
        \<or> (\<exists>pre c' post. cols = pre @ c' # post \<and> bf = Some c' \<and> ?val c' mm \<and> flt mm mn
           \<and> (\<forall>d\<in>set pre. \<forall>v. ?val d v \<longrightarrow> \<not> fle v mm)
           \<and> (\<forall>d\<in>set post. \<forall>v. ?val d v \<longrightarrow> \<not> flt v mm))"
      by blast
    have whole: "best_fit_loop arith ts df (c # cols) (mn, b) = Inr (mm, bf)"
      using v0 False run by simp
    from alt show ?thesis
    proof
      assume a: "mm = mn \<and> bf = b \<and> (\<forall>d\<in>set cols. \<forall>v. ?val d v \<longrightarrow> \<not> flt v mn)"
      have "mm = mn \<and> bf = b \<and> (\<forall>d\<in>set (c # cols). \<forall>v. ?val d v \<longrightarrow> \<not> flt v mn)"
        using a only False by simp
      then show ?thesis using whole by blast
    next
      assume "\<exists>pre c' post. cols = pre @ c' # post \<and> bf = Some c' \<and> ?val c' mm \<and> flt mm mn
           \<and> (\<forall>d\<in>set pre. \<forall>v. ?val d v \<longrightarrow> \<not> fle v mm)
           \<and> (\<forall>d\<in>set post. \<forall>v. ?val d v \<longrightarrow> \<not> flt v mm)"
      then obtain pre c' post where f: "cols = pre @ c' # post" "bf = Some c'" "?val c' mm"
        "flt mm mn"
        "\<forall>d\<in>set pre. \<forall>v. ?val d v \<longrightarrow> \<not> fle v mm"
        "\<forall>d\<in>set post. \<forall>v. ?val d v \<longrightarrow> \<not> flt v mm"
        by blast
      have "\<not> fle v0 mm" using fle_flt_trans [OF _ f(4)] False by blast
      then have "\<forall>v. ?val c v \<longrightarrow> \<not> fle v mm" using only by simp
      then have "c # cols = (c # pre) @ c' # post \<and> bf = Some c' \<and> ?val c' mm \<and> flt mm mn
           \<and> (\<forall>d\<in>set (c # pre). \<forall>v. ?val d v \<longrightarrow> \<not> fle v mm)
           \<and> (\<forall>d\<in>set post. \<forall>v. ?val d v \<longrightarrow> \<not> flt v mm)"
        using f by simp
      then show ?thesis using whole by blast
    qed
  qed
qed

lemma getitem_own_column:
  assumes "c \<in> set (map fst (columns df))"
  shows "\<exists>v. map_of (columns df) c = Some v \<and> (c, v) \<in> set (columns df)
              \<and> getitem df c = Inr (index df, v)"
proof -
  from assms obtain v where v: "map_of (columns df) c = Some v"
    by (metis map_of_eq_None_iff not_None_eq set_map)
  then have "(c, v) \<in> set (columns df)" by (rule map_of_SomeD)
  with v show ?thesis by (simp add: getitem_def)
qed

lemma mse_col_defined:
  assumes "snd ts \<noteq> []" and "list_all (\<lambda>(n, v). length v = length (snd ts)) (columns df)"
    and "c \<in> set (map fst (columns df))"
  shows "\<exists>v. mse_col arith ts df c = Inr v"
proof -
  from getitem_own_column [OF assms(3)] obtain v where
    v: "(c, v) \<in> set (columns df)" "getitem df c = Inr (index df, v)" by blast
  with assms(2) have "length v = length (snd ts)" by (auto simp: list_all_iff)
  with v assms(1) show ?thesis
    by (simp add: mse_col_def mean_squared_error_def)
qed

lemma has_finite_mse_iff:
  "has_finite_mse arith ts df \<longleftrightarrow>
     (\<exists>c\<in>set (map fst (columns df)). \<exists>m. mse_col arith ts df c = Inr (Fin m))"
proof -
  have aux: "(case x of Inr (Fin m) \<Rightarrow> True | _ \<Rightarrow> False) \<longleftrightarrow> (\<exists>m. x = Inr (Fin m))"
    for x :: "error + pyfloat"
    by (auto split: sum.splits pyfloat.splits)
  show ?thesis by (simp add: has_finite_mse_def list_ex_iff aux)
qed

text \<open>
  What the loop of \<^verbatim>\<open>_find_best_fit\<close> guarantees, for a training series with at least
  one sample, candidate columns of the series' length and whatever double
  \<^verbatim>\<open>mean_squared_error\<close> computes for each candidate. If the computed error of some
  candidate is finite, a candidate is returned whose computed error is finite, no
  candidate's computed error is strictly smaller, and no candidate before it in the
  frame's order has a computed error smaller or equal: among the candidates that attain
  the minimum the first is returned. If no candidate's computed error is finite, the
  running minimum never leaves \<^verbatim>\<open>float('inf')\<close> and \<^verbatim>\<open>None\<close> is returned.
\<close>

lemma find_best_fit_minimal_first:
  assumes "snd ts \<noteq> []"
    and "list_all (\<lambda>(n, v). length v = length (snd ts)) (columns df)"
  shows "(\<not> has_finite_mse arith ts df \<longrightarrow> find_best_fit arith ts df = Inr None)
       \<and> (has_finite_mse arith ts df \<longrightarrow>
            (\<exists>pre c post m. map fst (columns df) = pre @ c # post
               \<and> find_best_fit arith ts df = Inr (Some c)
               \<and> mse_col arith ts df c = Inr (Fin m)
               \<and> (\<forall>c' \<in> set (map fst (columns df)).
                     \<exists>v. mse_col arith ts df c' = Inr v \<and> \<not> flt v (Fin m))
               \<and> (\<forall>c' \<in> set pre. \<exists>v. mse_col arith ts df c' = Inr v \<and> \<not> fle v (Fin m))))"
proof -
  let ?cols = "map fst (columns df)"
  let ?val = "\<lambda>c v. mse_col arith ts df c = Inr v"
  have all: "\<forall>c\<in>set ?cols. \<exists>v. ?val c v"
    using mse_col_defined [OF assms] by blast
  from best_fit_loop_char [OF all, of PosInf None]
  obtain mm bf where run: "best_fit_loop arith ts df ?cols (PosInf, None) = Inr (mm, bf)"
    and alt: "(mm = PosInf \<and> bf = None \<and> (\<forall>c\<in>set ?cols. \<forall>v. ?val c v \<longrightarrow> \<not> flt v PosInf))
     \<or> (\<exists>pre c post. ?cols = pre @ c # post \<and> bf = Some c \<and> ?val c mm \<and> flt mm PosInf
           \<and> (\<forall>c'\<in>set pre. \<forall>v. ?val c' v \<longrightarrow> \<not> fle v mm)
           \<and> (\<forall>c'\<in>set post. \<forall>v. ?val c' v \<longrightarrow> \<not> flt v mm))"
    by blast
  have res: "find_best_fit arith ts df = Inr bf"
    using run by (simp add: find_best_fit_def)
  from alt show ?thesis
  proof
    assume a: "mm = PosInf \<and> bf = None \<and> (\<forall>c\<in>set ?cols. \<forall>v. ?val c v \<longrightarrow> \<not> flt v PosInf)"
    then have "\<not> has_finite_mse arith ts df"
      by (auto simp: has_finite_mse_iff)
    with a res show ?thesis by simp
  next
    assume "\<exists>pre c post. ?cols = pre @ c # post \<and> bf = Some c \<and> ?val c mm \<and> flt mm PosInf
           \<and> (\<forall>c'\<in>set pre. \<forall>v. ?val c' v \<longrightarrow> \<not> fle v mm)
           \<and> (\<forall>c'\<in>set post. \<forall>v. ?val c' v \<longrightarrow> \<not> flt v mm)"
    then obtain pre c post where f: "?cols = pre @ c # post" "bf = Some c" "?val c mm"
      "flt mm PosInf"
      "\<forall>c'\<in>set pre. \<forall>v. ?val c' v \<longrightarrow> \<not> fle v mm"
      "\<forall>c'\<in>set post. \<forall>v. ?val c' v \<longrightarrow> \<not> flt v mm"
      by blast
    from f(4) obtain m where m: "mm = Fin m" by (auto simp: flt_PosInf_iff)
    have fin: "has_finite_mse arith ts df"
      using f(1,3) m by (auto simp: has_finite_mse_iff)
    have nl: "\<forall>c' \<in> set ?cols. \<exists>v. ?val c' v \<and> \<not> flt v (Fin m)"
    proof
      fix c' assume c': "c' \<in> set ?cols"
      with all obtain v where v: "?val c' v" by blast
      from c' f(1) have "c' \<in> set pre \<or> c' = c \<or> c' \<in> set post" by auto
      then have "\<not> flt v mm"
      proof (elim disjE)
        assume "c' \<in> set pre"
        with f(5) v have "\<not> fle v mm" by blast
        then show ?thesis using m by (cases v) auto
      next
        assume "c' = c"
        with v f(3) have "v = mm" by simp
        then show ?thesis using m by simp
      next
        assume "c' \<in> set post"
        with f(6) v show ?thesis by blast
      qed
      with v m show "\<exists>v. ?val c' v \<and> \<not> flt v (Fin m)" by blast
    qed
    have ne: "\<forall>c' \<in> set pre. \<exists>v. ?val c' v \<and> \<not> fle v (Fin m)"
    proof
      fix c' assume c': "c' \<in> set pre"
      with f(1) have "c' \<in> set ?cols" by (metis Un_iff set_append)
      with all obtain v where v: "?val c' v" by blast
      with f(5) c' m show "\<exists>v. ?val c' v \<and> \<not> fle v (Fin m)" by blast
    qed
    from f(1,2,3) m res nl ne have "\<exists>pre c post m. ?cols = pre @ c # post
               \<and> find_best_fit arith ts df = Inr (Some c)
               \<and> ?val c (Fin m)
               \<and> (\<forall>c' \<in> set ?cols. \<exists>v. ?val c' v \<and> \<not> flt v (Fin m))
               \<and> (\<forall>c' \<in> set pre. \<exists>v. ?val c' v \<and> \<not> fle v (Fin m))"
      by blast
    with fin show ?thesis by simp
  qed
qed

text \<open>
  C1. The square of the training value \<open>2 ^ 520\<close> overflows, so the mean squared error
  that \<^verbatim>\<open>mean_squared_error\<close> computes against either candidate is \<^verbatim>\<open>inf\<close>. Both
  candidates attain the minimum, and the first should be returned; but \<^verbatim>\<open>inf < inf\<close> is
  false, the running minimum never leaves its start value, and \<^verbatim>\<open>_find_best_fit\<close>
  returns \<^verbatim>\<open>None\<close>.
\<close>

theorem all_mse_overflow_returns_none:
  "columns zero_df = [(''y1'', [0]), (''y2'', [0])]
   \<and> mse_col exact_arith huge_y zero_df ''y1'' = Inr PosInf
   \<and> mse_col exact_arith huge_y zero_df ''y2'' = Inr PosInf
   \<and> find_best_fit exact_arith huge_y zero_df = Inr None"
  using huge_mse huge_fit by (simp add: zero_df_def)

text \<open>
  C7, as the specification states it, fails on the code: with no candidate column the
  loop body never runs and \<^verbatim>\<open>_find_best_fit\<close> returns \<^verbatim>\<open>None\<close>; nothing is raised. And
  a training series labelled \<open>7, 8, 9\<close> against candidates labelled \<open>0, 1, 2\<close> raises
  nothing either: a candidate is selected.
\<close>

theorem find_best_fit_no_candidates_counterexample:
  "columns no_candidates_df = [] \<and> find_best_fit exact_arith ex_y1 no_candidates_df = Inr None
   \<and> index ex_ideal_df = [0, 1, 2]
   \<and> find_best_fit exact_arith ([7, 8, 9], [0, 2, 5]) ex_ideal_df = Inr (Some ''y2'')"
  using ex_fit_other_labels by (simp add: no_candidates_df_def find_best_fit_def ex_ideal_df_def)

lemma mean_squared_error_error: "mean_squared_error arith a b = Inl e \<Longrightarrow> e = ValueError"
  by (simp add: mean_squared_error_def split: if_splits)

lemma best_fit_loop_error:
  "set cols \<subseteq> set (map fst (columns df)) \<Longrightarrow> best_fit_loop arith ts df cols st = Inl e
     \<Longrightarrow> e = ValueError"
proof (induction cols arbitrary: st)
  case Nil
  then show ?case by simp
next
  case (Cons c cols)
  obtain mn b where st: "st = (mn, b)" by (cases st)
  from Cons.prems(1) have c: "c \<in> set (map fst (columns df))" by simp
  from getitem_own_column [OF c] obtain v where g: "getitem df c = Inr (index df, v)" by blast
  show ?case
  proof (cases "mean_squared_error arith ts (index df, v)")
    case (Inl e')
    with g Cons.prems(2) have "e = e'" unfolding st by (simp add: mse_col_def)
    with Inl show ?thesis by (simp add: mean_squared_error_error)
  next
    case (Inr w)
    with g Cons.prems(2) obtain st' where "best_fit_loop arith ts df cols st' = Inl e"
      unfolding st by (auto simp: mse_col_def split: if_splits)
    with Cons.IH Cons.prems(1) show ?thesis by simp
  qed
qed

lemma find_best_fit_error: "find_best_fit arith ts df = Inl e \<Longrightarrow> e = ValueError"
  by (auto simp: find_best_fit_def split: sum.splits dest: best_fit_loop_error [OF subset_refl])

lemma mse_col_labels:
  "mse_col arith (ix, snd ts) (df\<lparr>index := ix'\<rparr>) c = mse_col arith ts df c"
  by (simp add: mse_col_def getitem_def mean_squared_error_def split: option.splits)

lemma best_fit_loop_labels:
  "best_fit_loop arith (ix, snd ts) (df\<lparr>index := ix'\<rparr>) cols st = best_fit_loop arith ts df cols st"
proof (induction cols arbitrary: st)
  case Nil
  show ?case by simp
next
  case (Cons c cols)
  obtain mn b where st: "st = (mn, b)" by (cases st)
  show ?case unfolding st by (simp add: mse_col_labels Cons.IH split: sum.splits)
qed

text \<open>
  C7, amended. With no candidate column \<^verbatim>\<open>_find_best_fit\<close> returns \<^verbatim>\<open>None\<close>
  without an error. With a first candidate column, a training series without samples or
  with another number of samples than that column makes \<^verbatim>\<open>mean_squared_error\<close> raise
  ValueError, which \<^verbatim>\<open>_find_best_fit\<close> passes on; ValueError is the only error
  \<^verbatim>\<open>_find_best_fit\<close> can end with. The x values are never compared: whatever the labels
  of the training series and of the ideal frame are, the result is the same.
\<close>

theorem find_best_fit_errors_and_labels:
  "(columns df = [] \<longrightarrow> find_best_fit arith ts df = Inr None)
   \<and> (\<forall>c v rest. columns df = (c, v) # rest \<longrightarrow> (snd ts = [] \<or> length v \<noteq> length (snd ts))
         \<longrightarrow> find_best_fit arith ts df = Inl ValueError)
   \<and> (\<forall>e. find_best_fit arith ts df = Inl e \<longrightarrow> e = ValueError)
   \<and> find_best_fit arith (ix, snd ts) (df\<lparr>index := ix'\<rparr>) = find_best_fit arith ts df"
proof (intro conjI)
  show "columns df = [] \<longrightarrow> find_best_fit arith ts df = Inr None"
    by (simp add: find_best_fit_def)
  show "\<forall>c v rest. columns df = (c, v) # rest \<longrightarrow> (snd ts = [] \<or> length v \<noteq> length (snd ts))
         \<longrightarrow> find_best_fit arith ts df = Inl ValueError"
    by (auto simp: find_best_fit_def mse_col_def getitem_def mean_squared_error_def)
  show "\<forall>e. find_best_fit arith ts df = Inl e \<longrightarrow> e = ValueError"
    using find_best_fit_error by blast
  show "find_best_fit arith (ix, snd ts) (df\<lparr>index := ix'\<rparr>) = find_best_fit arith ts df"
    by (simp add: find_best_fit_def best_fit_loop_labels)
qed

theorem find_best_fit_errors_and_labels_witness:
  "columns no_candidates_df = [] \<and> find_best_fit exact_arith ex_y1 no_candidates_df = Inr None
   \<and> columns short_candidate_df = [(''y1'', [0, 1])]
   \<and> length [0, 1 :: real] \<noteq> length (snd ex_y1)
   \<and> find_best_fit exact_arith ex_y1 short_candidate_df = Inl ValueError
   \<and> find_best_fit exact_arith ([7, 8, 9], snd ex_y1) (ex_ideal_df\<lparr>index := [4, 5, 6]\<rparr>)
       = find_best_fit exact_arith ex_y1 ex_ideal_df"
proof -
  have h1: "columns no_candidates_df = []" by (simp add: no_candidates_df_def)
  have h2: "columns short_candidate_df = (''y1'', [0, 1]) # []" by (simp add: short_candidate_df_def)
  have h3: "length [0, 1 :: real] \<noteq> length (snd ex_y1)" by (simp add: ex_y1_def)
  from find_best_fit_errors_and_labels [of no_candidates_df exact_arith ex_y1] h1
  have a: "find_best_fit exact_arith ex_y1 no_candidates_df = Inr None" by blast
  from find_best_fit_errors_and_labels [of short_candidate_df exact_arith ex_y1] h2 h3
  have b: "find_best_fit exact_arith ex_y1 short_candidate_df = Inl ValueError" by blast
  from find_best_fit_errors_and_labels [of ex_ideal_df exact_arith ex_y1 "[7, 8, 9]" "[4, 5, 6]"]
  have c: "find_best_fit exact_arith ([7, 8, 9], snd ex_y1) (ex_ideal_df\<lparr>index := [4, 5, 6]\<rparr>)
       = find_best_fit exact_arith ex_y1 ex_ideal_df" by blast
  from h1 h2 h3 a b c show ?thesis by simp
qed

section \<open>Properties of the matcher\<close>

lemma flt_Fin_trans: "a < b \<Longrightarrow> flt (Fin b) c \<Longrightarrow> flt (Fin a) c"
  by (cases c) auto

lemma not_flt_Fin: "\<not> flt (Fin b) c \<Longrightarrow> flt (Fin a) c \<Longrightarrow> a < b"
  by (cases c) auto

lemma entry_ok_unique:
  "entry_ok x y ideal training e d \<Longrightarrow> entry_ok x y ideal training e d' \<Longrightarrow> d = d'"
  by (simp add: entry_ok_def)

lemma best_match_loop_step:
  assumes "deviation_of ideal x y (snd e) = Inr d"
    and "max_allowed_deviation training ideal (fst e) (snd e) = Inr m"
  shows "best_match_loop x y ideal training (e # es) (mn, b) =
     (if fle (Fin d) m \<and> flt (Fin d) mn
      then best_match_loop x y ideal training es (Fin d, Some (fst e + 1))
      else best_match_loop x y ideal training es (mn, b))"
  using assms by (cases e) simp

lemma best_match_loop_char:
  assumes "\<forall>e\<in>set es. (\<exists>d. deviation_of ideal x y (snd e) = Inr d)
              \<and> (\<exists>m. max_allowed_deviation training ideal (fst e) (snd e) = Inr m)"
  shows "\<exists>mm bf. best_match_loop x y ideal training es (mn, b) = Inr (mm, bf) \<and>
    ((mm = mn \<and> bf = b \<and> (\<forall>e\<in>set es. \<forall>d. entry_ok x y ideal training e d \<longrightarrow> \<not> flt (Fin d) mn))
     \<or> (\<exists>pre e post d. es = pre @ e # post \<and> bf = Some (fst e + 1) \<and> mm = Fin d
           \<and> entry_ok x y ideal training e d \<and> flt (Fin d) mn
           \<and> (\<forall>e'\<in>set pre. \<forall>d'. entry_ok x y ideal training e' d' \<longrightarrow> d < d')
           \<and> (\<forall>e'\<in>set post. \<forall>d'. entry_ok x y ideal training e' d' \<longrightarrow> d \<le> d')))"
  using assms
proof (induction es arbitrary: mn b)
  case Nil
  then show ?case by simp
next
  case (Cons e es)
  let ?ok = "entry_ok x y ideal training"
  from Cons.prems obtain d0 m0 where d0: "deviation_of ideal x y (snd e) = Inr d0"
    and m0: "max_allowed_deviation training ideal (fst e) (snd e) = Inr m0" by auto
  from Cons.prems have rest: "\<forall>e\<in>set es. (\<exists>d. deviation_of ideal x y (snd e) = Inr d)
              \<and> (\<exists>m. max_allowed_deviation training ideal (fst e) (snd e) = Inr m)" by simp
  have ok_e: "?ok e d \<longleftrightarrow> d = d0 \<and> fle (Fin d0) m0" for d
    using d0 m0 by (auto simp: entry_ok_def)
  note step = best_match_loop_step [OF d0 m0, of es mn b]
  show ?case
  proof (cases "fle (Fin d0) m0 \<and> flt (Fin d0) mn")
    case True
    from Cons.IH [OF rest, of "Fin d0" "Some (fst e + 1)"]
    obtain mm bf where run: "best_match_loop x y ideal training es (Fin d0, Some (fst e + 1)) = Inr (mm, bf)"
      and alt: "(mm = Fin d0 \<and> bf = Some (fst e + 1) \<and> (\<forall>e'\<in>set es. \<forall>d. ?ok e' d \<longrightarrow> \<not> flt (Fin d) (Fin d0)))
        \<or> (\<exists>pre e' post d. es = pre @ e' # post \<and> bf = Some (fst e' + 1) \<and> mm = Fin d
           \<and> ?ok e' d \<and> flt (Fin d) (Fin d0)
           \<and> (\<forall>a\<in>set pre. \<forall>d'. ?ok a d' \<longrightarrow> d < d')
           \<and> (\<forall>a\<in>set post. \<forall>d'. ?ok a d' \<longrightarrow> d \<le> d'))"
      by blast
    have whole: "best_match_loop x y ideal training (e # es) (mn, b) = Inr (mm, bf)"
      using step True run by simp
    from alt show ?thesis
    proof
      assume a: "mm = Fin d0 \<and> bf = Some (fst e + 1) \<and> (\<forall>e'\<in>set es. \<forall>d. ?ok e' d \<longrightarrow> \<not> flt (Fin d) (Fin d0))"
      have "e # es = [] @ e # es \<and> bf = Some (fst e + 1) \<and> mm = Fin d0
           \<and> ?ok e d0 \<and> flt (Fin d0) mn
           \<and> (\<forall>a\<in>set []. \<forall>d'. ?ok a d' \<longrightarrow> d0 < d')
           \<and> (\<forall>a\<in>set es. \<forall>d'. ?ok a d' \<longrightarrow> d0 \<le> d')"
        using a True ok_e by (auto simp: not_less)
      then show ?thesis using whole by blast
    next
      assume "\<exists>pre e' post d. es = pre @ e' # post \<and> bf = Some (fst e' + 1) \<and> mm = Fin d
           \<and> ?ok e' d \<and> flt (Fin d) (Fin d0)
           \<and> (\<forall>a\<in>set pre. \<forall>d'. ?ok a d' \<longrightarrow> d < d')
           \<and> (\<forall>a\<in>set post. \<forall>d'. ?ok a d' \<longrightarrow> d \<le> d')"
      then obtain pre e' post d where f: "es = pre @ e' # post" "bf = Some (fst e' + 1)" "mm = Fin d"
        "?ok e' d" "d < d0"
        "\<forall>a\<in>set pre. \<forall>d'. ?ok a d' \<longrightarrow> d < d'"
        "\<forall>a\<in>set post. \<forall>d'. ?ok a d' \<longrightarrow> d \<le> d'"
        by auto
      have "flt (Fin d) mn" using flt_Fin_trans [OF f(5)] True by simp
      then have "e # es = (e # pre) @ e' # post \<and> bf = Some (fst e' + 1) \<and> mm = Fin d
           \<and> ?ok e' d \<and> flt (Fin d) mn
           \<and> (\<forall>a\<in>set (e # pre). \<forall>d'. ?ok a d' \<longrightarrow> d < d')
           \<and> (\<forall>a\<in>set post. \<forall>d'. ?ok a d' \<longrightarrow> d \<le> d')"
        using f ok_e by auto
      then show ?thesis using whole by blast
    qed
  next
    case False
    from Cons.IH [OF rest, of mn b]
    obtain mm bf where run: "best_match_loop x y ideal training es (mn, b) = Inr (mm, bf)"
      and alt: "(mm = mn \<and> bf = b \<and> (\<forall>e'\<in>set es. \<forall>d. ?ok e' d \<longrightarrow> \<not> flt (Fin d) mn))
        \<or> (\<exists>pre e' post d. es = pre @ e' # post \<and> bf = Some (fst e' + 1) \<and> mm = Fin d
           \<and> ?ok e' d \<and> flt (Fin d) mn
           \<and> (\<forall>a\<in>set pre. \<forall>d'. ?ok a d' \<longrightarrow> d < d')
           \<and> (\<forall>a\<in>set post. \<forall>d'. ?ok a d' \<longrightarrow> d \<le> d'))"
      by blast
    have whole: "best_match_loop x y ideal training (e # es) (mn, b) = Inr (mm, bf)"
      using step False run by simp
    have e_no: "\<forall>d. ?ok e d \<longrightarrow> \<not> flt (Fin d) mn"
      using False ok_e by auto
    from alt show ?thesis
    proof
      assume a: "mm = mn \<and> bf = b \<and> (\<forall>e'\<in>set es. \<forall>d. ?ok e' d \<longrightarrow> \<not> flt (Fin d) mn)"
      have "mm = mn \<and> bf = b \<and> (\<forall>a\<in>set (e # es). \<forall>d. ?ok a d \<longrightarrow> \<not> flt (Fin d) mn)"
        using a e_no by auto
      then show ?thesis using whole by blast
    next
      assume "\<exists>pre e' post d. es = pre @ e' # post \<and> bf = Some (fst e' + 1) \<and> mm = Fin d
           \<and> ?ok e' d \<and> flt (Fin d) mn
           \<and> (\<forall>a\<in>set pre. \<forall>d'. ?ok a d' \<longrightarrow> d < d')
           \<and> (\<forall>a\<in>set post. \<forall>d'. ?ok a d' \<longrightarrow> d \<le> d')"
      then obtain pre e' post d where f: "es = pre @ e' # post" "bf = Some (fst e' + 1)" "mm = Fin d"
        "?ok e' d" "flt (Fin d) mn"
        "\<forall>a\<in>set pre. \<forall>d'. ?ok a d' \<longrightarrow> d < d'"
        "\<forall>a\<in>set post. \<forall>d'. ?ok a d' \<longrightarrow> d \<le> d'"
        by auto
      have "\<forall>d'. ?ok e d' \<longrightarrow> d < d'"
        using e_no f(5) not_flt_Fin by blast
      then have "e # es = (e # pre) @ e' # post \<and> bf = Some (fst e' + 1) \<and> mm = Fin d
           \<and> ?ok e' d \<and> flt (Fin d) mn
           \<and> (\<forall>a\<in>set (e # pre). \<forall>d'. ?ok a d' \<longrightarrow> d < d')
           \<and> (\<forall>a\<in>set post. \<forall>d'. ?ok a d' \<longrightarrow> d \<le> d')"
        using f by auto
      then show ?thesis using whole by blast
    qed
  qed
qed

lemma best_match_loop_Inr_defined:
  "best_match_loop x y ideal training es st = Inr r \<Longrightarrow>
     \<forall>e\<in>set es. (\<exists>d. deviation_of ideal x y (snd e) = Inr d)
              \<and> (\<exists>m. max_allowed_deviation training ideal (fst e) (snd e) = Inr m)"
proof (induction es arbitrary: st)
  case Nil
  then show ?case by simp
next
  case (Cons e es)
  obtain i f where e: "e = (i, f)" by (cases e)
  obtain mn b where st: "st = (mn, b)" by (cases st)
  from Cons.prems obtain d where d: "deviation_of ideal x y f = Inr d"
    unfolding e st by (auto split: sum.splits)
  from Cons.prems d obtain m where m: "max_allowed_deviation training ideal i f = Inr m"
    unfolding e st by (auto split: sum.splits)
  from Cons.prems d m obtain st' where "best_match_loop x y ideal training es st' = Inr r"
    unfolding e st by (auto split: if_splits)
  from Cons.IH [OF this] d m e show ?case by simp
qed

lemma length_enumerate_list: "length (enumerate_list xs) = length xs"
  by (simp add: enumerate_list_def)

lemma nth_enumerate_list: "j < length xs \<Longrightarrow> enumerate_list xs ! j = (j, xs ! j)"
  by (simp add: enumerate_list_def)

lemma enumerate_split:
  assumes "enumerate_list xs = pre @ e # post"
  shows "length pre < length xs" and "e = (length pre, xs ! length pre)"
    and "\<And>j. j < length pre \<Longrightarrow> (j, xs ! j) \<in> set pre"
    and "\<And>j. length pre < j \<Longrightarrow> j < length xs \<Longrightarrow> (j, xs ! j) \<in> set post"
proof -
  have len: "length xs = length pre + Suc (length post)"
    using arg_cong [OF assms, of length] by (simp add: length_enumerate_list)
  then show lt: "length pre < length xs" by simp
  have "enumerate_list xs ! length pre = e" using assms by simp
  with lt show "e = (length pre, xs ! length pre)" by (simp add: nth_enumerate_list)
  show "(j, xs ! j) \<in> set pre" if "j < length pre" for j
  proof -
    from that lt have "enumerate_list xs ! j = (j, xs ! j)" by (simp add: nth_enumerate_list)
    moreover have "enumerate_list xs ! j = pre ! j" using that assms by (simp add: nth_append)
    ultimately show ?thesis using that by (metis nth_mem)
  qed
  show "(j, xs ! j) \<in> set post" if "length pre < j" "j < length xs" for j
  proof -
    from that have "enumerate_list xs ! j = (j, xs ! j)" by (simp add: nth_enumerate_list)
    moreover have "enumerate_list xs ! j = post ! (j - Suc (length pre))"
      using that assms by (simp add: nth_append nth_Cons')
    moreover have "j - Suc (length pre) < length post" using that len by simp
    ultimately show ?thesis by (metis nth_mem)
  qed
qed

lemma eligible_iff:
  "eligible x y funcs ideal training j \<longleftrightarrow>
     j < length funcs \<and> (\<exists>d. entry_ok x y ideal training (j, funcs ! j) d)"
  by (auto simp: eligible_def entry_ok_def split: sum.splits)

lemma find_best_match_char:
  assumes "find_best_match x y funcs ideal training = Inr (bf, dv)"
  shows "(bf = None \<and> dv = PosInf \<and> (\<forall>j. \<not> eligible x y funcs ideal training j))
       \<or> (\<exists>k d. bf = Some (k + 1) \<and> dv = Fin d \<and> k < length funcs
             \<and> entry_ok x y ideal training (k, funcs ! k) d
             \<and> (\<forall>j d'. j < length funcs \<longrightarrow> entry_ok x y ideal training (j, funcs ! j) d'
                   \<longrightarrow> d \<le> d' \<and> (j < k \<longrightarrow> d < d')))"
proof -
  let ?es = "enumerate_list funcs"
  let ?ok = "entry_ok x y ideal training"
  from assms have run: "best_match_loop x y ideal training ?es (PosInf, None) = Inr (dv, bf)"
    by (auto simp: find_best_match_def split: sum.splits)
  from best_match_loop_char [OF best_match_loop_Inr_defined [OF run], of PosInf None] run
  have alt: "(dv = PosInf \<and> bf = None \<and> (\<forall>e\<in>set ?es. \<forall>d. ?ok e d \<longrightarrow> \<not> flt (Fin d) PosInf))
     \<or> (\<exists>pre e post d. ?es = pre @ e # post \<and> bf = Some (fst e + 1) \<and> dv = Fin d
           \<and> ?ok e d \<and> flt (Fin d) PosInf
           \<and> (\<forall>e'\<in>set pre. \<forall>d'. ?ok e' d' \<longrightarrow> d < d')
           \<and> (\<forall>e'\<in>set post. \<forall>d'. ?ok e' d' \<longrightarrow> d \<le> d'))"
    by auto
  then show ?thesis
  proof
    assume a: "dv = PosInf \<and> bf = None \<and> (\<forall>e\<in>set ?es. \<forall>d. ?ok e d \<longrightarrow> \<not> flt (Fin d) PosInf)"
    have "\<not> eligible x y funcs ideal training j" for j
    proof
      assume "eligible x y funcs ideal training j"
      then obtain d where j: "j < length funcs" and ok: "?ok (j, funcs ! j) d"
        by (auto simp: eligible_iff)
      from j have "(j, funcs ! j) \<in> set ?es"
        by (metis length_enumerate_list nth_enumerate_list nth_mem)
      with a ok show False by auto
    qed
    with a show ?thesis by blast
  next
    assume "\<exists>pre e post d. ?es = pre @ e # post \<and> bf = Some (fst e + 1) \<and> dv = Fin d
           \<and> ?ok e d \<and> flt (Fin d) PosInf
           \<and> (\<forall>e'\<in>set pre. \<forall>d'. ?ok e' d' \<longrightarrow> d < d')
           \<and> (\<forall>e'\<in>set post. \<forall>d'. ?ok e' d' \<longrightarrow> d \<le> d')"
    then obtain pre e post d where f: "?es = pre @ e # post" "bf = Some (fst e + 1)" "dv = Fin d"
      "?ok e d"
      "\<forall>e'\<in>set pre. \<forall>d'. ?ok e' d' \<longrightarrow> d < d'"
      "\<forall>e'\<in>set post. \<forall>d'. ?ok e' d' \<longrightarrow> d \<le> d'"
      by blast
    let ?k = "length pre"
    note sp = enumerate_split [OF f(1)]
    have e: "e = (?k, funcs ! ?k)" by (rule sp(2))
    have "d \<le> d' \<and> (j < ?k \<longrightarrow> d < d')" if "j < length funcs" "?ok (j, funcs ! j) d'" for j d'
    proof -
      consider "j < ?k" | "j = ?k" | "?k < j" by linarith
      then show ?thesis
      proof cases
        case 1
        then have "(j, funcs ! j) \<in> set pre" by (rule sp(3))
        with f(5) that(2) have "d < d'" by blast
        then show ?thesis by simp
      next
        case 2
        with that(2) f(4) e have "d' = d" by (auto dest: entry_ok_unique)
        with 2 show ?thesis by simp
      next
        case 3
        then have "(j, funcs ! j) \<in> set post" using that(1) by (rule sp(4))
        with f(6) that(2) have "d \<le> d'" by blast
        with 3 show ?thesis by simp
      qed
    qed
    then have "bf = Some (?k + 1) \<and> dv = Fin d \<and> ?k < length funcs \<and> ?ok (?k, funcs ! ?k) d
       \<and> (\<forall>j d'. j < length funcs \<longrightarrow> ?ok (j, funcs ! j) d' \<longrightarrow> d \<le> d' \<and> (j < ?k \<longrightarrow> d < d'))"
      using f(2,3,4) e sp(1) by auto
    then show ?thesis by blast
  qed
qed

lemma loc_defined:
  assumes "wf_frame df" and "x \<in> set (index df)" and "c \<in> set (map fst (columns df))"
  shows "\<exists>v. loc df x c = Inr v"
proof -
  from assms(3) obtain v where v: "map_of (columns df) c = Some v"
    by (metis map_of_eq_None_iff not_None_eq set_map)
  then have "(c, v) \<in> set (columns df)" by (rule map_of_SomeD)
  with assms(1) have len: "length (index df) = length v"
    by (auto simp: wf_frame_def list_all_iff)
  from map_of_zip_is_Some [OF len] assms(2) obtain w where "map_of (zip (index df) v) x = Some w"
    by blast
  with v show ?thesis by (simp add: loc_def)
qed

lemma getitem_defined:
  "c \<in> set (map fst (columns df)) \<Longrightarrow> \<exists>s. getitem df c = Inr s"
  by (cases "map_of (columns df) c") (auto simp: getitem_def map_of_eq_None_iff)

lemma lookups_defined:
  assumes "wf_frame ideal" and "x \<in> set (index ideal)" and "selection_ok funcs ideal training"
  shows "\<forall>e\<in>set (enumerate_list funcs). (\<exists>d. deviation_of ideal x y (snd e) = Inr d)
              \<and> (\<exists>m. max_allowed_deviation training ideal (fst e) (snd e) = Inr m)"
proof
  fix e assume e: "e \<in> set (enumerate_list funcs)"
  with assms(3) obtain c where c: "snd e = Some c" "c \<in> set (map fst (columns ideal))"
    and t: "col_name (fst e + 1) \<in> set (map fst (columns training))"
    by (cases e) (auto simp: selection_ok_def list_all_iff split: option.splits)
  from loc_defined [OF assms(1,2) c(2)] obtain v where "loc ideal x c = Inr v" ..
  with c(1) have dev: "\<exists>d. deviation_of ideal x y (snd e) = Inr d"
    by (simp add: deviation_of_def)
  from getitem_defined [OF t] obtain s where s: "getitem training (col_name (fst e + 1)) = Inr s" ..
  from getitem_defined [OF c(2)] obtain s' where "getitem ideal c = Inr s'" ..
  with s c(1) have "\<exists>m. max_allowed_deviation training ideal (fst e) (snd e) = Inr m"
    by (simp add: max_allowed_deviation_def)
  with dev show "(\<exists>d. deviation_of ideal x y (snd e) = Inr d)
              \<and> (\<exists>m. max_allowed_deviation training ideal (fst e) (snd e) = Inr m)" ..
qed

lemma find_best_match_returns:
  assumes "wf_frame ideal" and "x \<in> set (index ideal)" and "selection_ok funcs ideal training"
  shows "\<exists>bf dv. find_best_match x y funcs ideal training = Inr (bf, dv)"
proof -
  from best_match_loop_char [OF lookups_defined [OF assms], of y PosInf None]
  obtain mm bf where "best_match_loop x y ideal training (enumerate_list funcs) (PosInf, None) = Inr (mm, bf)"
    by blast
  then show ?thesis by (simp add: find_best_match_def)
qed

lemma ex_none_eligible: "\<not> eligible 1 5 ex_funcs ex_ideal_df (read_sql ex_training) j"
proof
  assume el: "eligible 1 5 ex_funcs ex_ideal_df (read_sql ex_training) j"
  then have "j < 4" by (simp add: eligible_def ex_funcs_def)
  then consider "j = 0" | "j = Suc 0" | "j = Suc (Suc 0)" | "j = Suc (Suc (Suc 0))" by linarith
  then show False
    using el sqrt2_bounds by cases (simp_all add: eligible_def ex_funcs_def ex_dev ex_mad)
qed

subsection \<open>The loop and the tolerance it computes\<close>

text \<open>
  What the loop of \<^verbatim>\<open>_find_best_match\<close> does with the tolerance that line 182 computes,
  whatever that value is: an assignment is within it, the smallest deviation within it
  wins with ties to the lower position, and without a deviation within it there is no
  assignment.
\<close>

lemma assigned_within_computed_tolerance:
  assumes "find_best_match x y funcs ideal training = Inr (Some k, dv)"
  shows "\<exists>d m. 1 \<le> k \<and> k \<le> length funcs \<and> dv = Fin d
           \<and> deviation_of ideal x y (funcs ! (k - 1)) = Inr d
           \<and> max_allowed_deviation training ideal (k - 1) (funcs ! (k - 1)) = Inr m
           \<and> fle (Fin d) m"
proof -
  from find_best_match_char [OF assms]
  obtain j d where j: "k = j + 1" "dv = Fin d" "j < length funcs"
    "entry_ok x y ideal training (j, funcs ! j) d"
    by auto
  from j(4) obtain m where "deviation_of ideal x y (funcs ! j) = Inr d"
    "max_allowed_deviation training ideal j (funcs ! j) = Inr m" "fle (Fin d) m"
    by (auto simp: entry_ok_def split: sum.splits)
  with j(1,2,3) show ?thesis by simp
qed

lemma smallest_within_computed_tolerance_wins:
  assumes "wf_frame ideal" and "x \<in> set (index ideal)" and "selection_ok funcs ideal training"
    and "eligible x y funcs ideal training j0"
  shows "\<exists>k d. find_best_match x y funcs ideal training = Inr (Some (k + 1), Fin d)
           \<and> eligible x y funcs ideal training k
           \<and> deviation_of ideal x y (funcs ! k) = Inr d
           \<and> (\<forall>j d'. eligible x y funcs ideal training j
                 \<longrightarrow> deviation_of ideal x y (funcs ! j) = Inr d'
                 \<longrightarrow> d \<le> d' \<and> (j < k \<longrightarrow> d < d'))"
proof -
  from find_best_match_returns [OF assms(1,2,3)]
  obtain bf dv where res: "find_best_match x y funcs ideal training = Inr (bf, dv)" by blast
  from find_best_match_char [OF res] assms(4)
  obtain k d where k: "bf = Some (k + 1)" "dv = Fin d" "k < length funcs"
    "entry_ok x y ideal training (k, funcs ! k) d"
    "\<forall>j d'. j < length funcs \<longrightarrow> entry_ok x y ideal training (j, funcs ! j) d'
        \<longrightarrow> d \<le> d' \<and> (j < k \<longrightarrow> d < d')"
    by blast
  have el: "eligible x y funcs ideal training k" using k(3,4) by (auto simp: eligible_iff)
  have dev: "deviation_of ideal x y (funcs ! k) = Inr d" using k(4) by (simp add: entry_ok_def)
  have "d \<le> d' \<and> (j < k \<longrightarrow> d < d')"
    if "eligible x y funcs ideal training j" "deviation_of ideal x y (funcs ! j) = Inr d'" for j d'
  proof -
    from that have "j < length funcs" "entry_ok x y ideal training (j, funcs ! j) d'"
      by (auto simp: eligible_iff entry_ok_def)
    with k(5) show ?thesis by blast
  qed
  with res k(1,2) el dev show ?thesis by blast
qed

lemma none_within_computed_tolerance_unassigned:
  assumes "wf_frame ideal" and "x \<in> set (index ideal)" and "selection_ok funcs ideal training"
    and "\<forall>j. \<not> eligible x y funcs ideal training j"
  shows "\<exists>dv. find_best_match x y funcs ideal training = Inr (None, dv)"
proof -
  from find_best_match_returns [OF assms(1,2,3)]
  obtain bf dv where res: "find_best_match x y funcs ideal training = Inr (bf, dv)" by blast
  from find_best_match_char [OF res] assms(4) have "bf = None"
    by (auto simp: eligible_iff)
  with res show ?thesis by blast
qed

subsection \<open>A test point whose x no candidate has\<close>

lemma loc_missing_label: "x \<notin> set (index df) \<Longrightarrow> loc df x c = Inl KeyError"
proof -
  assume x: "x \<notin> set (index df)"
  have none: "map_of (zip (index df) v) x = None" for v
    using x by (auto simp: map_of_eq_None_iff dest: set_zip_leftD)
  show ?thesis by (simp add: loc_def none split: option.splits)
qed

lemma find_best_match_missing_label:
  assumes "x \<notin> set (index ideal)" and "funcs \<noteq> []"
  shows "find_best_match x y funcs ideal training = Inl KeyError"
proof -
  from assms(2) obtain f fs where fs: "funcs = f # fs" by (cases funcs) auto
  have dev: "deviation_of ideal x y f = Inl KeyError"
    using loc_missing_label [OF assms(1)] by (simp add: deviation_of_def split: option.splits)
  have "enumerate_list funcs = (0, f) # zip [1..<Suc (length fs)] fs"
    unfolding fs enumerate_list_def by (simp add: upt_rec)
  with dev show ?thesis by (simp add: find_best_match_def)
qed

lemma match_rows_abort:
  "(x, y) \<in> set pts \<Longrightarrow> find_best_match x y funcs ideal training = Inl e \<Longrightarrow>
     \<exists>e'. match_rows pts funcs ideal training = Inl e'"
proof (induction pts)
  case Nil
  then show ?case by simp
next
  case (Cons p pts)
  obtain x' y' where p: "p = (x', y')" by (cases p)
  show ?case
  proof (cases "p = (x, y)")
    case True
    with Cons.prems(2) show ?thesis by simp
  next
    case False
    with Cons have "\<exists>e'. match_rows pts funcs ideal training = Inl e'" by simp
    then show ?thesis unfolding p by (auto split: sum.splits)
  qed
qed

lemma select_best_fits_length:
  "select_best_fits arith training ideal ns = Inr fs \<Longrightarrow> length fs = length ns"
  by (induction ns arbitrary: fs) (auto split: sum.splits)

text \<open>
  C3, as the specification states it, fails on the code: the test point \<open>(3, 0)\<close>
  has an x that is no label of the example's ideal frame; \<^verbatim>\<open>_find_best_match\<close>
  raises KeyError for it, and the run over a test set that holds it ends with that
  error, the row before it lost.
\<close>

theorem missing_x_skip_counterexample:
  "3 \<notin> set (index ex_ideal_df)
   \<and> find_best_match 3 0 ex_funcs ex_ideal_df (read_sql ex_training) = Inl KeyError
   \<and> map_test_data exact_arith [(1, 5 / 2), (3, 0)] ex_ideal ex_training = Inl KeyError"
  using ex_match_missing ex_run_missing by (simp add: ex_ideal_df_def)

text \<open>
  C3, amended. For a test point whose x is no label of the ideal frame, the lookup
  \<^verbatim>\<open>ideal_df.loc[x_val, ideal_func]\<close> raises KeyError at the first entry of any non-empty
  \<^verbatim>\<open>best_fit_funcs\<close>; \<^verbatim>\<open>_find_best_match\<close> passes it on, and so does
  \<^verbatim>\<open>map_test_data\<close>: the run over a test set that holds such a point ends with an
  error and yields no rows.
\<close>

theorem missing_x_aborts_run:
  assumes "set_index ''x'' (read_sql ideal_functions) = Inr ideal_df"
    and "(x, y) \<in> set test_df" and "x \<notin> set (index ideal_df)"
  shows "(\<forall>funcs training_df. funcs \<noteq> [] \<longrightarrow>
            find_best_match x y funcs ideal_df training_df = Inl KeyError)
       \<and> (\<exists>e. map_test_data arith test_df ideal_functions training_data = Inl e)"
proof
  show "\<forall>funcs training_df. funcs \<noteq> [] \<longrightarrow>
            find_best_match x y funcs ideal_df training_df = Inl KeyError"
    using find_best_match_missing_label [OF assms(3)] by blast
next
  let ?tr = "read_sql training_data"
  show "\<exists>e. map_test_data arith test_df ideal_functions training_data = Inl e"
  proof (cases "select_best_fits arith ?tr ideal_df [1, 2, 3, 4]")
    case (Inl e)
    with assms(1) show ?thesis by (simp add: map_test_data_def)
  next
    case (Inr funcs)
    from select_best_fits_length [OF Inr] have "funcs \<noteq> []" by auto
    from find_best_match_missing_label [OF assms(3) this]
    have "find_best_match x y funcs ideal_df ?tr = Inl KeyError" .
    from match_rows_abort [OF assms(2) this]
    obtain e where "match_rows test_df funcs ideal_df ?tr = Inl e" ..
    with assms(1) Inr show ?thesis by (simp add: map_test_data_def)
  qed
qed

theorem missing_x_aborts_run_witness:
  "set_index ''x'' (read_sql ex_ideal) = Inr ex_ideal_df
   \<and> (3, 0) \<in> set [(1, 5 / 2), (3, 0 :: real)]
   \<and> 3 \<notin> set (index ex_ideal_df)
   \<and> ex_funcs \<noteq> []
   \<and> find_best_match 3 0 ex_funcs ex_ideal_df (read_sql ex_training) = Inl KeyError
   \<and> (\<exists>e. map_test_data exact_arith [(1, 5 / 2), (3, 0)] ex_ideal ex_training = Inl e)"
proof -
  have h2: "(3, 0) \<in> set [(1, 5 / 2), (3, 0 :: real)]" by simp
  have h3: "3 \<notin> set (index ex_ideal_df)" by (simp add: ex_ideal_df_def)
  have h4: "ex_funcs \<noteq> []" by (simp add: ex_funcs_def)
  from missing_x_aborts_run [OF ex_read_ideal h2 h3, of exact_arith ex_training] ex_read_ideal h2 h3 h4
  show ?thesis by blast
qed

subsection \<open>The tolerance\<close>

text \<open>
  C4. The code subtracts the training column, labelled by row number, from the ideal
  column, labelled by x; pandas pairs the values by label. In the example the training
  series and the candidate agree at every x (\<open>x = 1, 2\<close>, both \<open>10, 20\<close>), so the
  tolerance over shared x values is 0; the code pairs row 1 of the training column with
  x = 1 of the candidate and computes \<open>sqrt 2 * 10\<close>.
\<close>

theorem max_allowed_deviation_pairs_by_row_label:
  "max_allowed_deviation (read_sql shifted_training) shifted_ideal_df 0 (Some ''y1'')
     = Inr (Fin (sqrt 2 * 10))
   \<and> shared_x_max_allowed_deviation (read_sql shifted_training) shifted_ideal_df 0 (Some ''y1'')
     = Inr (Fin 0)"
  using shifted_mad shifted_spec by simp

text \<open>
  C2. On the same tables the test point \<open>(1, 24)\<close> has deviation 14 from the only
  candidate. \<^verbatim>\<open>_find_best_match\<close> assigns it, since 14 is within the \<open>sqrt 2 * 10\<close>
  that line 182 computes, although the max-allowed-deviation of the training series that
  selected the candidate, taken over the shared x values, is 0.
\<close>

theorem assigned_beyond_shared_x_tolerance:
  "select_best_fits exact_arith (read_sql shifted_training) shifted_ideal_df [1, 2, 3, 4]
     = Inr y1_funcs
   \<and> find_best_match 1 24 y1_funcs shifted_ideal_df (read_sql shifted_training)
     = Inr (Some 1, Fin 14)
   \<and> deviation_of shifted_ideal_df 1 24 (y1_funcs ! 0) = Inr 14
   \<and> shared_x_max_allowed_deviation (read_sql shifted_training) shifted_ideal_df 0 (y1_funcs ! 0)
     = Inr (Fin 0)
   \<and> \<not> fle (Fin 14) (Fin 0)"
proof -
  have a: "deviation_of shifted_ideal_df 1 24 (y1_funcs ! 0) = Inr 14"
    by (simp add: y1_funcs_def shifted_dev)
  have b: "shared_x_max_allowed_deviation (read_sql shifted_training) shifted_ideal_df 0 (y1_funcs ! 0)
     = Inr (Fin 0)"
    using shifted_spec by (simp add: y1_funcs_def)
  have c: "\<not> fle (Fin 14) (Fin 0)" by simp
  from shifted_select shifted_match a b c show ?thesis by (intro conjI)
qed

text \<open>
  C6. For the same test point no selected candidate's deviation lies within its
  max-allowed-deviation over the shared x values: the deviation is 14 and that tolerance is
  0 for each of the four training series. The run nevertheless emits an assigned row.
\<close>

theorem assigned_row_without_candidate_in_tolerance:
  "deviation_of shifted_ideal_df 1 24 (Some ''y1'') = Inr 14
   \<and> shared_x_max_allowed_deviation (read_sql shifted_training) shifted_ideal_df 0 (Some ''y1'')
     = Inr (Fin 0)
   \<and> shared_x_max_allowed_deviation (read_sql shifted_training) shifted_ideal_df 1 (Some ''y1'')
     = Inr (Fin 0)
   \<and> shared_x_max_allowed_deviation (read_sql shifted_training) shifted_ideal_df 2 (Some ''y1'')
     = Inr (Fin 0)
   \<and> shared_x_max_allowed_deviation (read_sql shifted_training) shifted_ideal_df 3 (Some ''y1'')
     = Inr (Fin 0)
   \<and> map_test_data exact_arith [(1, 24)] shifted_ideal shifted_training
     = Inr [\<lparr>row_x = 1, row_y = 24, delta_y = Fin 14, ideal_func_no = Some 1\<rparr>]"
proof -
  have a: "deviation_of shifted_ideal_df 1 24 (Some ''y1'') = Inr 14"
    by (simp add: shifted_dev)
  have b: "map_test_data exact_arith [(1, 24)] shifted_ideal shifted_training
     = Inr [\<lparr>row_x = 1, row_y = 24, delta_y = Fin 14, ideal_func_no = Some 1\<rparr>]"
    by (simp add: shifted_run_eq shifted_match)
  from a shifted_spec shifted_spec_rest b show ?thesis by (intro conjI)
qed

text \<open>
  C5. In the tables over \<open>x = 10, 20\<close> the training series and the candidate share no
  label, so the maximum of line 182 is NaN and no comparison with it holds. The test point
  \<open>(10, 1)\<close> lies on its candidate: its deviation 0 is within the max-allowed-deviation
  over the shared x values, which is 0, so it has an eligible candidate; yet
  \<^verbatim>\<open>_find_best_match\<close> returns it unassigned.
\<close>

theorem eligible_point_left_unassigned:
  "select_best_fits exact_arith (read_sql far_training) far_ideal_df [1, 2, 3, 4] = Inr y1_funcs
   \<and> deviation_of far_ideal_df 10 1 (y1_funcs ! 0) = Inr 0
   \<and> shared_x_max_allowed_deviation (read_sql far_training) far_ideal_df 0 (y1_funcs ! 0)
     = Inr (Fin 0)
   \<and> fle (Fin 0) (Fin 0)
   \<and> max_allowed_deviation (read_sql far_training) far_ideal_df 0 (y1_funcs ! 0) = Inr NaN
   \<and> find_best_match 10 1 y1_funcs far_ideal_df (read_sql far_training) = Inr (None, PosInf)"
proof -
  have a: "deviation_of far_ideal_df 10 1 (y1_funcs ! 0) = Inr 0"
    by (simp add: y1_funcs_def far_dev)
  have b: "shared_x_max_allowed_deviation (read_sql far_training) far_ideal_df 0 (y1_funcs ! 0)
     = Inr (Fin 0)"
    using far_spec by (simp add: y1_funcs_def)
  have c: "fle (Fin 0) (Fin 0)" by simp
  have d: "max_allowed_deviation (read_sql far_training) far_ideal_df 0 (y1_funcs ! 0) = Inr NaN"
    using far_mad(1) by (simp add: y1_funcs_def)
  from far_select a b c d far_match show ?thesis by (intro conjI)
qed

text \<open>
  C8. In the example the first training series selects the ideal function \<open>y2\<close>; the
  test point \<open>(1, 5/2)\<close> is assigned to it, and the emitted row carries
  \<^verbatim>\<open>ideal_func_no = 1\<close>, the position of the training series, not the number of the
  ideal function.
\<close>

theorem ideal_func_no_is_training_position:
  "select_best_fits exact_arith (read_sql ex_training) ex_ideal_df [1, 2, 3, 4] = Inr ex_funcs
   \<and> ex_funcs ! 0 = Some ''y2''
   \<and> map_test_data exact_arith [(1, 5 / 2)] ex_ideal ex_training =
       Inr [\<lparr>row_x = 1, row_y = 5 / 2, delta_y = Fin (1 / 2), ideal_func_no = Some 1\<rparr>]"
proof -
  have a: "ex_funcs ! 0 = Some ''y2''" by (simp add: ex_funcs_def)
  have b: "map_test_data exact_arith [(1, 5 / 2)] ex_ideal ex_training =
       Inr [\<lparr>row_x = 1, row_y = 5 / 2, delta_y = Fin (1 / 2), ideal_func_no = Some 1\<rparr>]"
    by (simp add: ex_run_eq ex_match_assigned)
  from ex_select a b show ?thesis by (intro conjI)
qed

subsection \<open>The fit assignment computed once\<close>

lemma deviation_of_error: "deviation_of ideal x y f = Inl e \<Longrightarrow> e = KeyError"
  by (auto simp: deviation_of_def loc_def split: option.splits sum.splits)

lemma getitem_error: "getitem df c = Inl e \<Longrightarrow> e = KeyError"
  by (auto simp: getitem_def split: option.splits)

lemma max_allowed_deviation_error: "max_allowed_deviation training ideal i f = Inl e \<Longrightarrow> e = KeyError"
  by (auto simp: max_allowed_deviation_def split: option.splits sum.splits dest: getitem_error)

lemma fit_assignment_error: "fit_assignment training ideal es = Inl e \<Longrightarrow> e = KeyError"
proof (induction es)
  case Nil
  then show ?case by simp
next
  case (Cons a es)
  obtain i f where a: "a = (i, f)" by (cases a)
  from Cons show ?case unfolding a
    by (auto split: sum.splits dest: max_allowed_deviation_error)
qed

lemma best_match_loop_precomputed:
  "best_match_loop x y ideal training es st =
     (case fit_assignment training ideal es of
        Inl e \<Rightarrow> Inl e
      | Inr fa \<Rightarrow> match_assigned x y ideal fa st)"
proof (induction es arbitrary: st)
  case Nil
  then show ?case by simp
next
  case (Cons a es)
  obtain i f where a: "a = (i, f)" by (cases a)
  obtain mn b where st: "st = (mn, b)" by (cases st)
  show ?case
  proof (cases "max_allowed_deviation training ideal i f")
    case (Inl e)
    then have "e = KeyError" by (rule max_allowed_deviation_error)
    with Inl show ?thesis unfolding a st
      by (auto split: sum.splits dest: deviation_of_error)
  next
    case mad: (Inr m)
    show ?thesis
    proof (cases "deviation_of ideal x y f")
      case (Inl e)
      then have "e = KeyError" by (rule deviation_of_error)
      with Inl mad show ?thesis unfolding a st
        by (auto split: sum.splits dest: fit_assignment_error)
    next
      case (Inr d)
      with mad Cons.IH show ?thesis unfolding a st
        by (auto split: sum.splits)
    qed
  qed
qed

lemma find_best_match_precomputed_eq:
  "find_best_match x y funcs ideal training = find_best_match_precomputed x y funcs ideal training"
  by (simp add: find_best_match_def find_best_match_precomputed_def match_point_assigned_def
      best_match_loop_precomputed split: sum.splits)

lemma match_rows_precomputed:
  assumes "fit_assignment training ideal (enumerate_list funcs) = Inr fa"
  shows "match_rows pts funcs ideal training = match_rows_assigned pts fa ideal"
proof (induction pts)
  case Nil
  show ?case by simp
next
  case (Cons p pts)
  obtain x y where p: "p = (x, y)" by (cases p)
  have "find_best_match x y funcs ideal training = match_point_assigned x y ideal fa"
    using assms by (simp add: find_best_match_precomputed_eq find_best_match_precomputed_def)
  with Cons.IH show ?case unfolding p by (simp split: sum.splits)
qed

lemma ex_fit_assignment:
  "fit_assignment (read_sql ex_training) ex_ideal_df (enumerate_list ex_funcs) = Inr ex_fa"
  by (simp add: ex_enum ex_mad ex_fa_def)

text \<open>
  C9. The max-allowed-deviation of an entry depends on the training frame, the ideal
  frame and the entry only. \<^verbatim>\<open>_find_best_match\<close>, which recomputes it for every test
  point, returns for every test point what the matcher over the fit assignment computed
  once returns, errors included; and once the fit assignment is computed, the run over
  any test set yields the same rows either way.
\<close>

theorem recomputation_equals_precomputed:
  "find_best_match x y funcs ideal training = find_best_match_precomputed x y funcs ideal training
   \<and> (fit_assignment training ideal (enumerate_list funcs) = Inr fa
        \<longrightarrow> match_rows pts funcs ideal training = match_rows_assigned pts fa ideal)"
  using find_best_match_precomputed_eq match_rows_precomputed by blast

theorem recomputation_equals_precomputed_witness:
  "fit_assignment (read_sql ex_training) ex_ideal_df (enumerate_list ex_funcs) = Inr ex_fa
   \<and> find_best_match 1 (5 / 2) ex_funcs ex_ideal_df (read_sql ex_training)
       = find_best_match_precomputed 1 (5 / 2) ex_funcs ex_ideal_df (read_sql ex_training)
   \<and> match_rows [(1, 5 / 2), (1, 5)] ex_funcs ex_ideal_df (read_sql ex_training)
       = match_rows_assigned [(1, 5 / 2), (1, 5)] ex_fa ex_ideal_df"
  using recomputation_equals_precomputed
          [of 1 "5 / 2" ex_funcs ex_ideal_df "read_sql ex_training" ex_fa "[(1, 5 / 2), (1, 5)]"]
        ex_fit_assignment
  by blast

subsection \<open>The rows of a run\<close>

lemma match_rows_char:
  "match_rows pts funcs ideal training = Inr rows \<Longrightarrow>
     length rows = length pts \<and>
     (\<forall>i<length pts. \<exists>bf dv.
         find_best_match (fst (pts ! i)) (snd (pts ! i)) funcs ideal training = Inr (bf, dv)
         \<and> rows ! i = \<lparr>row_x = fst (pts ! i), row_y = snd (pts ! i), delta_y = dv, ideal_func_no = bf\<rparr>)"
proof (induction pts arbitrary: rows)
  case Nil
  then show ?case by simp
next
  case (Cons p pts)
  obtain x y where p: "p = (x, y)" by (cases p)
  from Cons.prems obtain bf dv rest where
    m: "find_best_match x y funcs ideal training = Inr (bf, dv)"
    and r: "match_rows pts funcs ideal training = Inr rest"
    and rows: "rows = \<lparr>row_x = x, row_y = y, delta_y = dv, ideal_func_no = bf\<rparr> # rest"
    unfolding p by (auto split: sum.splits)
  from Cons.IH [OF r] have len: "length rest = length pts"
    and ih: "\<forall>i<length pts. \<exists>bf dv.
         find_best_match (fst (pts ! i)) (snd (pts ! i)) funcs ideal training = Inr (bf, dv)
         \<and> rest ! i = \<lparr>row_x = fst (pts ! i), row_y = snd (pts ! i), delta_y = dv, ideal_func_no = bf\<rparr>"
    by simp_all
  have "\<exists>bf dv.
         find_best_match (fst ((p # pts) ! i)) (snd ((p # pts) ! i)) funcs ideal training = Inr (bf, dv)
         \<and> rows ! i = \<lparr>row_x = fst ((p # pts) ! i), row_y = snd ((p # pts) ! i), delta_y = dv, ideal_func_no = bf\<rparr>"
    if "i < length (p # pts)" for i
  proof (cases i)
    case 0
    with m rows p show ?thesis by simp
  next
    case (Suc n)
    with that have "n < length pts" by simp
    with ih Suc rows show ?thesis by simp
  qed
  with len rows show ?case by simp
qed

text \<open>
  C10. In a run of \<^verbatim>\<open>map_test_data\<close> that returns, there is one row per test point,
  and for every test point with no eligible entry \<^verbatim>\<open>_find_best_match\<close> returns
  \<^verbatim>\<open>(None, float('inf'))\<close> and the row records the point with \<^verbatim>\<open>delta_y\<close> infinite
  and \<^verbatim>\<open>ideal_func_no\<close> \<^verbatim>\<open>None\<close>.
\<close>

theorem unassigned_row_has_infinite_delta:
  assumes "set_index ''x'' (read_sql ideal_functions) = Inr ideal_df"
    and "select_best_fits arith (read_sql training_data) ideal_df [1, 2, 3, 4] = Inr funcs"
    and "map_test_data arith test_df ideal_functions training_data = Inr rows"
  shows "length rows = length test_df \<and>
     (\<forall>i<length test_df.
        (\<forall>j. \<not> eligible (fst (test_df ! i)) (snd (test_df ! i)) funcs ideal_df (read_sql training_data) j)
        \<longrightarrow> find_best_match (fst (test_df ! i)) (snd (test_df ! i)) funcs ideal_df (read_sql training_data)
              = Inr (None, PosInf)
          \<and> rows ! i = \<lparr>row_x = fst (test_df ! i), row_y = snd (test_df ! i),
                         delta_y = PosInf, ideal_func_no = None\<rparr>)"
proof -
  let ?tr = "read_sql training_data"
  from assms have mr: "match_rows test_df funcs ideal_df ?tr = Inr rows"
    by (simp add: map_test_data_def)
  note ch = match_rows_char [OF mr]
  have "find_best_match (fst (test_df ! i)) (snd (test_df ! i)) funcs ideal_df ?tr = Inr (None, PosInf)
          \<and> rows ! i = \<lparr>row_x = fst (test_df ! i), row_y = snd (test_df ! i),
                         delta_y = PosInf, ideal_func_no = None\<rparr>"
    if i: "i < length test_df"
      and no: "\<forall>j. \<not> eligible (fst (test_df ! i)) (snd (test_df ! i)) funcs ideal_df ?tr j" for i
  proof -
    from ch i obtain bf dv where
      m: "find_best_match (fst (test_df ! i)) (snd (test_df ! i)) funcs ideal_df ?tr = Inr (bf, dv)"
      and r: "rows ! i = \<lparr>row_x = fst (test_df ! i), row_y = snd (test_df ! i), delta_y = dv, ideal_func_no = bf\<rparr>"
      by blast
    from find_best_match_char [OF m] no have "bf = None \<and> dv = PosInf"
      by (auto simp: eligible_iff)
    with m r show ?thesis by simp
  qed
  with ch show ?thesis by blast
qed

theorem unassigned_row_has_infinite_delta_witness:
  "set_index ''x'' (read_sql ex_ideal) = Inr ex_ideal_df
   \<and> select_best_fits exact_arith (read_sql ex_training) ex_ideal_df [1, 2, 3, 4] = Inr ex_funcs
   \<and> map_test_data exact_arith [(1, 5 / 2), (1, 5)] ex_ideal ex_training =
       Inr [\<lparr>row_x = 1, row_y = 5 / 2, delta_y = Fin (1 / 2), ideal_func_no = Some 1\<rparr>,
            \<lparr>row_x = 1, row_y = 5, delta_y = PosInf, ideal_func_no = None\<rparr>]
   \<and> (\<forall>j. \<not> eligible 1 5 ex_funcs ex_ideal_df (read_sql ex_training) j)
   \<and> find_best_match 1 5 ex_funcs ex_ideal_df (read_sql ex_training) = Inr (None, PosInf)
   \<and> [\<lparr>row_x = 1, row_y = 5 / 2, delta_y = Fin (1 / 2), ideal_func_no = Some 1\<rparr>,
       \<lparr>row_x = 1, row_y = 5, delta_y = PosInf, ideal_func_no = None\<rparr>] ! 1
       = \<lparr>row_x = 1, row_y = 5, delta_y = PosInf, ideal_func_no = None\<rparr>"
proof -
  let ?pts = "[(1, 5 / 2), (1, 5)] :: (real \<times> real) list"
  have no: "\<forall>j. \<not> eligible (fst (?pts ! 1)) (snd (?pts ! 1)) ex_funcs ex_ideal_df (read_sql ex_training) j"
    using ex_none_eligible by simp
  from unassigned_row_has_infinite_delta [OF ex_read_ideal ex_select ex_run]
  have all: "\<forall>i<length ?pts.
        (\<forall>j. \<not> eligible (fst (?pts ! i)) (snd (?pts ! i)) ex_funcs ex_ideal_df (read_sql ex_training) j)
        \<longrightarrow> find_best_match (fst (?pts ! i)) (snd (?pts ! i)) ex_funcs ex_ideal_df (read_sql ex_training)
              = Inr (None, PosInf)" by blast
  have "find_best_match (fst (?pts ! 1)) (snd (?pts ! 1)) ex_funcs ex_ideal_df (read_sql ex_training)
              = Inr (None, PosInf)"
    by (rule all [rule_format, of 1]) (use no in simp_all)
  then have m: "find_best_match 1 5 ex_funcs ex_ideal_df (read_sql ex_training) = Inr (None, PosInf)"
    by simp
  have n: "\<forall>j. \<not> eligible 1 5 ex_funcs ex_ideal_df (read_sql ex_training) j"
    using ex_none_eligible by blast
  from ex_read_ideal ex_select ex_run m n show ?thesis by simp
qed

end
